theory Spec2Isabelle
  imports Complex_Main "HOL-Library.Sublist" "HOL-Library.Multiset"
    "HOL-Library.Extended_Nat"
begin

section \<open>JavaScript strings\<close>

text \<open>
  A JavaScript string is a sequence of UTF-16 code units; \<open>length\<close>, \<open>substring\<close>,
  \<open>includes\<close>, \<open>split\<close> and the regular expressions of the sources (none carries the
  \<open>u\<close> flag) all count and compare code units. A code unit is modelled by its number.
  String literals of the sources that are plain ASCII are written \<open>str ''...''\<close>; the two
  dingbat glyphs U+2715 and U+2717 are written as their code units.
\<close>

type_synonym jschar = nat
type_synonym jsstring = "jschar list"

definition str :: "string \<Rightarrow> jsstring" where
  "str s = map of_char s"

definition glyph_2715 :: jsstring where
  "glyph_2715 = [0x2715]"

definition glyph_2717 :: jsstring where
  "glyph_2717 = [0x2717]"

text \<open>
  \<open>String.prototype.toLowerCase\<close>. The ASCII capitals map to their small letters. Of all
  other code points only two have a lower-case form that contains an ASCII letter: the
  Kelvin sign U+212A (small k) and the dotted capital I U+0130 (small i followed by the
  combining dot U+0307). Every other code unit is left as it is: its real lower-case form
  holds no ASCII letter and neither dingbat, so \<open>includes\<close> with the needles of the
  sources (ASCII text and the two dingbats) gives the same answer.
\<close>

definition lower_unit :: "jschar \<Rightarrow> jsstring" where
  "lower_unit c =
     (if 65 \<le> c \<and> c \<le> 90 then [c + 32]
      else if c = 0x212A then [107]
      else if c = 0x130 then [105, 0x307]
      else [c])"

definition toLowerCase :: "jsstring \<Rightarrow> jsstring" where
  "toLowerCase s = concat (map lower_unit s)"

text \<open>\<open>s.includes(n)\<close>: \<open>n\<close> occurs in \<open>s\<close> as a contiguous run of code units.\<close>

fun includes_js :: "jsstring \<Rightarrow> jsstring \<Rightarrow> bool" where
  "includes_js [] n = (n = [])"
| "includes_js (c # s) n = (prefix n (c # s) \<or> includes_js s n)"

section \<open>ErrorAnalyzer\<close>

text \<open>
  The \<open>TestError\<close> interface. (\<open>file\<close> is a reserved word, hence the prime.) The
  \<open>line\<close> is a JavaScript number that is never negative and never fractional here: a
  natural number or \<open>Infinity\<close>.
\<close>

record TestError =
  file' :: jsstring
  line :: enat
  message :: jsstring
  type :: jsstring

subsection \<open>\<open>getErrorCategory\<close>\<close>

definition getErrorCategory :: "jsstring \<Rightarrow> jsstring" where
  "getErrorCategory msg =
     (let lowerMessage = toLowerCase msg in
      if includes_js lowerMessage (str ''syntaxerror'') \<or>
         includes_js lowerMessage (str ''syntax error'') then str ''Syntax Error''
      else if includes_js lowerMessage (str ''typeerror'') \<or>
         includes_js lowerMessage (str ''type error'') then str ''Type Error''
      else if includes_js lowerMessage (str ''referenceerror'') \<or>
         includes_js lowerMessage (str ''reference error'') then str ''Reference Error''
      else if includes_js lowerMessage (str ''assertionerror'') \<or>
         includes_js lowerMessage (str ''assertion'') \<or>
         includes_js lowerMessage (str ''expected'') \<or>
         includes_js lowerMessage (str ''toBe'') \<or>
         includes_js lowerMessage (str ''toEqual'') then str ''Test Assertion''
      else if includes_js lowerMessage (str ''undefined'') \<or>
         includes_js lowerMessage (str ''null'') \<or>
         includes_js lowerMessage (str ''cannot read property'') \<or>
         includes_js lowerMessage (str ''cannot access before initialization'')
         then str ''Undefined Variable''
      else if includes_js lowerMessage (str ''module'') \<or>
         includes_js lowerMessage (str ''import'') \<or>
         includes_js lowerMessage (str ''require'') \<or>
         includes_js lowerMessage (str ''cannot resolve'') then str ''Module Error''
      else if includes_js lowerMessage (str ''promise'') \<or>
         includes_js lowerMessage (str ''async'') \<or>
         includes_js lowerMessage (str ''await'') \<or>
         includes_js lowerMessage (str ''unhandled rejection'') then str ''Async Error''
      else if includes_js lowerMessage (str ''network'') \<or>
         includes_js lowerMessage (str ''fetch'') \<or>
         includes_js lowerMessage (str ''xhr'') \<or>
         includes_js lowerMessage (str ''timeout'') then str ''Network Error''
      else if includes_js lowerMessage (str ''file'') \<or>
         includes_js lowerMessage (str ''path'') \<or>
         includes_js lowerMessage (str ''directory'') \<or>
         includes_js lowerMessage (str ''enoent'') then str ''File System Error''
      else str ''Other'')"

text \<open>The ten labels \<open>getErrorCategory\<close> can return, in the order of its branches.\<close>

definition all_categories :: "jsstring list" where
  "all_categories =
     [str ''Syntax Error'', str ''Type Error'', str ''Reference Error'',
      str ''Test Assertion'', str ''Undefined Variable'', str ''Module Error'',
      str ''Async Error'', str ''Network Error'', str ''File System Error'',
      str ''Other'']"

text \<open>Every substring some branch of \<open>getErrorCategory\<close> looks for.\<close>

definition trigger_substrings :: "jsstring list" where
  "trigger_substrings =
     [str ''syntaxerror'', str ''syntax error'', str ''typeerror'', str ''type error'',
      str ''referenceerror'', str ''reference error'', str ''assertionerror'',
      str ''assertion'', str ''expected'', str ''toBe'', str ''toEqual'',
      str ''undefined'', str ''null'', str ''cannot read property'',
      str ''cannot access before initialization'', str ''module'', str ''import'',
      str ''require'', str ''cannot resolve'', str ''promise'', str ''async'',
      str ''await'', str ''unhandled rejection'', str ''network'', str ''fetch'',
      str ''xhr'', str ''timeout'', str ''file'', str ''path'', str ''directory'',
      str ''enoent'']"

subsection \<open>\<open>categorizeErrors\<close>\<close>

text \<open>
  A \<open>Record<string, number>\<close> that is only ever filled by assignment to string keys:
  the keys in the order of their first assignment, each with its number.
  \<open>categories[k] = (categories[k] || 0) + 1\<close> adds one to the number of a key that is
  there (a stored \<open>0\<close> is falsy and gives \<open>0 + 1\<close> all the same) and appends a new key
  with \<open>1\<close>.
\<close>

type_synonym counts = "(jsstring \<times> nat) list"

fun increment :: "counts \<Rightarrow> jsstring \<Rightarrow> counts" where
  "increment [] k = [(k, 1)]"
| "increment ((k', n) # r) k =
     (if k' = k then (k', n + 1) # r else (k', n) # increment r k)"

definition categorizeErrors :: "TestError list \<Rightarrow> counts" where
  "categorizeErrors errors =
     foldl (\<lambda>categories error. increment categories (getErrorCategory (message error)))
       [] errors"

text \<open>
  \<open>errorTypes[k] > n\<close>: a key that was never assigned reads \<open>undefined\<close>, and
  \<open>undefined > n\<close> is false.
\<close>

fun greater_than :: "nat option \<Rightarrow> nat \<Rightarrow> bool" where
  "greater_than None n = False"
| "greater_than (Some m) n = (m > n)"

subsection \<open>\<open>assessSeverity\<close>\<close>

datatype severity = low | medium | high | critical

definition assessSeverity :: "TestError list \<Rightarrow> severity" where
  "assessSeverity errors =
     (let errorCount = length errors;
          errorTypes = categorizeErrors errors in
      if errorCount > 15 \<or> greater_than (map_of errorTypes (str ''Syntax Error'')) 0
        then critical
      else if errorCount > 10 \<or>
          greater_than (map_of errorTypes (str ''Reference Error'')) 2
        then high
      else if errorCount > 5 \<or> greater_than (map_of errorTypes (str ''Type Error'')) 1
        then medium
      else low)"

subsection \<open>\<open>analyzeErrors\<close>\<close>

text \<open>
  Of the object \<open>analyzeErrors\<close> returns, the three fields the properties below read.
  Its other fields (\<open>patterns\<close>, \<open>context\<close>, \<open>recommendations\<close>, \<open>errorFrequency\<close>,
  \<open>affectedLanguages\<close>) are computed from the same list by functions of their own and
  are left out.
\<close>

record ErrorAnalysis =
  errorCount :: nat
  errorTypes :: counts
  severity :: severity

definition analyzeErrors :: "TestError list \<Rightarrow> ErrorAnalysis" where
  "analyzeErrors errors =
     \<lparr>errorCount = length errors, errorTypes = categorizeErrors errors,
      severity = assessSeverity errors\<rparr>"

text \<open>The order \<open>low < medium < high < critical\<close>.\<close>

fun severity_rank :: "severity \<Rightarrow> nat" where
  "severity_rank low = 0"
| "severity_rank medium = 1"
| "severity_rank high = 2"
| "severity_rank critical = 3"

subsection \<open>The step function of the specification\<close>

text \<open>
  The number of errors of a list that fall into a category, and the severity the
  specification gives to a total with the numbers of syntax, reference and type errors.
\<close>

definition category_count :: "TestError list \<Rightarrow> jsstring \<Rightarrow> nat" where
  "category_count errors c =
     length (filter (\<lambda>e. getErrorCategory (message e) = c) errors)"

definition severity_step :: "nat \<Rightarrow> nat \<Rightarrow> nat \<Rightarrow> nat \<Rightarrow> severity" where
  "severity_step n syntax reference type_errors =
     (if n > 15 \<or> syntax > 0 then critical
      else if n > 10 \<or> reference > 2 then high
      else if n > 5 \<or> type_errors > 1 then medium
      else low)"

text \<open>The number a \<open>counts\<close> object holds for a key, \<open>0\<close> for a key it lacks.\<close>

definition count_of :: "counts \<Rightarrow> jsstring \<Rightarrow> nat" where
  "count_of cs k = (case map_of cs k of None \<Rightarrow> 0 | Some n \<Rightarrow> n)"

text \<open>The loop of \<open>categorizeErrors\<close>, from any object built so far.\<close>

definition categorize_from :: "counts \<Rightarrow> TestError list \<Rightarrow> counts" where
  "categorize_from acc errors =
     foldl (\<lambda>categories error. increment categories (getErrorCategory (message error)))
       acc errors"

subsection \<open>Three errors to evaluate the analyzer on\<close>

definition syntax_error_1 :: TestError where
  "syntax_error_1 =
     \<lparr>file' = str ''a.js'', line = 1, message = str ''SyntaxError: unexpected token'',
      type = str ''jest''\<rparr>"

definition syntax_error_2 :: TestError where
  "syntax_error_2 =
     \<lparr>file' = str ''b.py'', line = 2, message = str ''Uncaught syntax error'',
      type = str ''python''\<rparr>"

definition other_error :: TestError where
  "other_error =
     \<lparr>file' = str ''unknown'', line = 0, message = str ''something else broke'',
      type = str ''generic''\<rparr>"

section \<open>More string operations\<close>

text \<open>
  \<open>s.split(sep)\<close> for a separator that is not empty: the pieces between the occurrences of
  the separator, found from left to right without overlap. \<open>cur\<close> is the piece being read.
\<close>

fun split_from :: "jschar \<Rightarrow> jsstring \<Rightarrow> jsstring \<Rightarrow> jsstring \<Rightarrow> jsstring list" where
  "split_from d ds cur [] = [cur]"
| "split_from d ds cur (c # s) =
     (if prefix (d # ds) (c # s) then cur # split_from d ds [] (drop (length ds) s)
      else split_from d ds (cur @ [c]) s)"

definition split :: "jsstring \<Rightarrow> jsstring \<Rightarrow> jsstring list" where
  "split s sep = (case sep of d # ds \<Rightarrow> split_from d ds [] s | [] \<Rightarrow> map (\<lambda>c. [c]) s)"

text \<open>\<open>xs.join(sep)\<close>, \<open>xs.slice(a, b)\<close> for \<open>0 \<le> a\<close> and \<open>0 \<le> b\<close>, \<open>s.substring(0, n)\<close>.\<close>

fun join :: "jsstring list \<Rightarrow> jsstring \<Rightarrow> jsstring" where
  "join [] sep = []"
| "join [x] sep = x"
| "join (x # y # xs) sep = x @ sep @ join (y # xs) sep"

definition slice :: "'a list \<Rightarrow> nat \<Rightarrow> nat \<Rightarrow> 'a list" where
  "slice xs a b = take (b - a) (drop a xs)"

definition substring0 :: "jsstring \<Rightarrow> nat \<Rightarrow> jsstring" where
  "substring0 s n = take n s"

text \<open>
  \<open>s.trim()\<close> removes the white space and line terminators of ECMAScript from both ends.
\<close>

definition is_whitespace :: "jschar \<Rightarrow> bool" where
  "is_whitespace c =
     ((9 \<le> c \<and> c \<le> 13) \<or> c = 32 \<or> c = 0xA0 \<or> c = 0x1680 \<or>
      (0x2000 \<le> c \<and> c \<le> 0x200A) \<or> c = 0x2028 \<or> c = 0x2029 \<or> c = 0x202F \<or>
      c = 0x205F \<or> c = 0x3000 \<or> c = 0xFEFF)"

definition trim :: "jsstring \<Rightarrow> jsstring" where
  "trim s = rev (dropWhile is_whitespace (rev (dropWhile is_whitespace s)))"

text \<open>
  The Number value for a natural number, as \<open>parseInt\<close> returns it: a double holds 53
  significant bits, so a number below \<open>2 ^ 53\<close> is itself, a larger one is rounded to 53
  significant bits (to the nearest, a tie to the even one), and a number that rounds to
  \<open>2 ^ 1024\<close> or more is \<open>Infinity\<close>.
\<close>

function bit_length :: "nat \<Rightarrow> nat" where
  "bit_length n = (if n = 0 then 0 else Suc (bit_length (n div 2)))"
  by pat_completeness auto
termination
  by (relation "measure (\<lambda>n. n)") auto

declare bit_length.simps [simp del]

definition number_value :: "nat \<Rightarrow> enat" where
  "number_value n =
     (if n < 2 ^ 53 then enat n
      else
        (let e = bit_length n - 53;
             q = n div 2 ^ e;
             r = n mod 2 ^ e;
             half = 2 ^ (e - 1);
             rounded = (if r > half \<or> (r = half \<and> odd q) then q + 1 else q) * 2 ^ e
         in if rounded \<ge> 2 ^ 1024 then \<infinity> else enat rounded))"

text \<open>
  \<open>parseInt\<close> of a run of decimal digits (what \<open>(\d+)\<close> captures): the Number value for
  the integer the digits denote.
\<close>

definition parseInt :: "jsstring \<Rightarrow> enat" where
  "parseInt ds = number_value (foldl (\<lambda>n c. 10 * n + (c - 48)) 0 ds)"

section \<open>Regular expressions\<close>

text \<open>
  The constructs the regular expressions of the sources are written with, and a
  backtracking matcher in the order of ECMAScript: the results of \<open>run r x\<close> are the ways
  \<open>r\<close> matches at the start of the input of \<open>x\<close>, each with the input left over and the
  capture groups, in the order in which a backtracking matcher tries them. A greedy star
  tries another round before stopping, a lazy star stops before trying another round, and
  a round that consumes nothing is dropped, as ECMAScript does.
\<close>

datatype regex =
    Empty
  | Chr jschar
  | ChrI jschar
  | Dot
  | Digit
  | WordChar
  | AnyChar
  | Seq regex regex
  | Alt regex regex
  | Star regex
  | LazyStar regex
  | Group nat regex

type_synonym captures = "nat \<rightharpoonup> jsstring"
type_synonym mstate = "jsstring \<times> captures"

text \<open>
  Under the flag \<open>i\<close> (without \<open>u\<close>) two code units match when their canonical forms are
  equal; the canonical form is the upper-case form, except that a code unit from 128 on
  never takes an ASCII form. Against an ASCII character of a pattern that leaves the ASCII
  letters of either case.
\<close>

definition upper_unit :: "jschar \<Rightarrow> jschar" where
  "upper_unit c = (if 97 \<le> c \<and> c \<le> 122 then c - 32 else c)"

definition is_digit :: "jschar \<Rightarrow> bool" where
  "is_digit c = (48 \<le> c \<and> c \<le> 57)"

definition is_word :: "jschar \<Rightarrow> bool" where
  "is_word c = ((97 \<le> c \<and> c \<le> 122) \<or> (65 \<le> c \<and> c \<le> 90) \<or> is_digit c \<or> c = 95)"

definition is_line_terminator :: "jschar \<Rightarrow> bool" where
  "is_line_terminator c = (c = 0x0A \<or> c = 0x0D \<or> c = 0x2028 \<or> c = 0x2029)"

fun one :: "(jschar \<Rightarrow> bool) \<Rightarrow> mstate \<Rightarrow> mstate list" where
  "one p ([], cp) = []"
| "one p (c # s, cp) = (if p c then [(s, cp)] else [])"

function run :: "regex \<Rightarrow> mstate \<Rightarrow> mstate list" where
  "run Empty x = [x]"
| "run (Chr a) x = one (\<lambda>c. c = a) x"
| "run (ChrI a) x = one (\<lambda>c. upper_unit c = upper_unit a) x"
| "run Dot x = one (\<lambda>c. \<not> is_line_terminator c) x"
| "run Digit x = one is_digit x"
| "run WordChar x = one is_word x"
| "run AnyChar x = one (\<lambda>c. True) x"
| "run (Seq r1 r2) x = concat (map (run r2) (run r1 x))"
| "run (Alt r1 r2) x = run r1 x @ run r2 x"
| "run (Star r) x =
     concat (map (run (Star r))
       (filter (\<lambda>y. length (fst y) < length (fst x)) (run r x))) @ [x]"
| "run (LazyStar r) x =
     x # concat (map (run (LazyStar r))
       (filter (\<lambda>y. length (fst y) < length (fst x)) (run r x)))"
| "run (Group n r) x =
     map (\<lambda>y. (fst y, (snd y)(n \<mapsto> take (length (fst x) - length (fst y)) (fst x))))
       (run r x)"
  by pat_completeness auto
termination
  by (relation "measures [\<lambda>(r, x). size r, \<lambda>(r, x). length (fst x)]") auto

declare run.simps [simp del]

text \<open>The capture groups that every match of an expression fills.\<close>

fun sure_groups :: "regex \<Rightarrow> nat set" where
  "sure_groups (Group n r) = insert n (sure_groups r)"
| "sure_groups (Seq r1 r2) = sure_groups r1 \<union> sure_groups r2"
| "sure_groups (Alt r1 r2) = sure_groups r1 \<inter> sure_groups r2"
| "sure_groups r = {}"

text \<open>\<open>r+\<close>, \<open>r?\<close>, a literal text, a literal text under the flag \<open>i\<close>, a sequence.\<close>

definition Plus :: "regex \<Rightarrow> regex" where
  "Plus r = Seq r (Star r)"

definition Opt :: "regex \<Rightarrow> regex" where
  "Opt r = Alt r Empty"

fun lit :: "jsstring \<Rightarrow> regex" where
  "lit [] = Empty"
| "lit (c # s) = Seq (Chr c) (lit s)"

fun lit_i :: "jsstring \<Rightarrow> regex" where
  "lit_i [] = Empty"
| "lit_i (c # s) = Seq (ChrI c) (lit_i s)"

fun seqs :: "regex list \<Rightarrow> regex" where
  "seqs [] = Empty"
| "seqs (r # rs) = Seq r (seqs rs)"

text \<open>
  The first match of a regular expression in a string: the leftmost start at which the
  expression matches, and there the first way it does. \<open>index\<close> is the start, \<open>matched\<close>
  the text matched (\<open>m[0]\<close>), \<open>groups\<close> the capture groups (\<open>m[1]\<close>, ...), \<open>rest\<close> the input
  after the match.
\<close>

record match_result =
  index :: nat
  matched :: jsstring
  groups :: captures
  rest :: jsstring

fun search_from :: "regex \<Rightarrow> nat \<Rightarrow> jsstring \<Rightarrow> match_result option" where
  "search_from r i s =
     (case run r (s, Map.empty) of
        (s', cp) # _ \<Rightarrow>
          Some \<lparr>index = i, matched = take (length s - length s') s, groups = cp, rest = s'\<rparr>
      | [] \<Rightarrow> (case s of [] \<Rightarrow> None | c # t \<Rightarrow> search_from r (Suc i) t))"

declare search_from.simps [simp del]

text \<open>\<open>s.match(r)\<close> and \<open>r.test(s)\<close> for an expression without the flag \<open>g\<close>.\<close>

definition match :: "jsstring \<Rightarrow> regex \<Rightarrow> match_result option" where
  "match s r = search_from r 0 s"

definition test :: "regex \<Rightarrow> jsstring \<Rightarrow> bool" where
  "test r s = (match s r \<noteq> None)"

text \<open>
  \<open>m[n]\<close> of a match. The groups read below stand outside every alternative and star of
  their expression, so a match always fills them; the empty text stands for a group that
  is not filled.
\<close>

definition group :: "match_result \<Rightarrow> nat \<Rightarrow> jsstring" where
  "group m n = (case groups m n of Some t \<Rightarrow> t | None \<Rightarrow> [])"

text \<open>\<open>a || b\<close> on the results of two matches.\<close>

fun or_else :: "'a option \<Rightarrow> 'a option \<Rightarrow> 'a option" where
  "or_else (Some a) b = Some a"
| "or_else None b = b"

section \<open>TestRunner: the output parser\<close>

text \<open>The regular expressions of \<open>parseErrors\<close>, in the order of the source.\<close>

definition jest_at :: regex where
  \<comment> \<open>\<^verbatim>\<open>/at (.+):(\d+):(\d+)/\<close>\<close>
  "jest_at = seqs [lit (str ''at ''), Group 1 (Plus Dot), Chr 58, Group 2 (Plus Digit),
     Chr 58, Group 3 (Plus Digit)]"

definition jest_file :: regex where
  \<comment> \<open>\<^verbatim>\<open>/(.+\.(?:js|ts|jsx|tsx)):(\d+):(\d+)/\<close>\<close>
  "jest_file = seqs [Group 1 (seqs [Plus Dot, Chr 46,
       Alt (lit (str ''js'')) (Alt (lit (str ''ts'')) (Alt (lit (str ''jsx'')) (lit (str ''tsx''))))]),
     Chr 58, Group 2 (Plus Digit), Chr 58, Group 3 (Plus Digit)]"

definition python_traceback :: regex where
  \<comment> \<open>\<^verbatim>\<open>/File "(.+)", line (\d+)/\<close>\<close>
  "python_traceback = seqs [lit (str ''File ''), Chr 34, Group 1 (Plus Dot), Chr 34,
     lit (str '', line ''), Group 2 (Plus Digit)]"

definition python_file :: regex where
  \<comment> \<open>\<^verbatim>\<open>/(.+\.py):(\d+):/\<close>\<close>
  "python_file = seqs [Group 1 (seqs [Plus Dot, Chr 46, lit (str ''py'')]), Chr 58,
     Group 2 (Plus Digit), Chr 58]"

definition go_file :: regex where
  \<comment> \<open>\<^verbatim>\<open>/(.+\.go):(\d+):/\<close>\<close>
  "go_file = seqs [Group 1 (seqs [Plus Dot, Chr 46, lit (str ''go'')]), Chr 58,
     Group 2 (Plus Digit), Chr 58]"

definition errorPatterns :: "regex list" where
  "errorPatterns =
     [lit_i (str ''error:''), lit_i (str ''fail''), lit glyph_2715, lit glyph_2717,
      lit_i (str ''exception''),
      seqs [lit_i (str ''assertion''), Star Dot, lit_i (str ''error'')],
      seqs [lit_i (str ''reference''), Star Dot, lit_i (str ''error'')],
      seqs [lit_i (str ''type''), Star Dot, lit_i (str ''error'')],
      seqs [lit_i (str ''syntax''), Star Dot, lit_i (str ''error'')],
      seqs [lit_i (str ''runtime''), Star Dot, lit_i (str ''error'')]]"

definition isErrorLine :: "jsstring \<Rightarrow> bool" where
  "isErrorLine line_text = list_ex (\<lambda>pattern. test pattern line_text) errorPatterns"

definition getContextualError :: "jsstring list \<Rightarrow> nat \<Rightarrow> jsstring" where
  "getContextualError lines currentIndex =
     (let start = max 0 (currentIndex - 1);
          end_index = min (length lines) (currentIndex + 2) in
      trim (join (slice lines start end_index) [10]))"

definition jestMatch :: "jsstring \<Rightarrow> match_result option" where
  "jestMatch line_text = or_else (match line_text jest_at) (match line_text jest_file)"

definition pythonMatch :: "jsstring \<Rightarrow> match_result option" where
  "pythonMatch line_text =
     or_else (match line_text python_traceback) (match line_text python_file)"

definition goMatch :: "jsstring \<Rightarrow> match_result option" where
  "goMatch line_text = match line_text go_file"

text \<open>
  The loop of \<open>parseErrors\<close>: \<open>i\<close> is the loop variable, \<open>errors\<close> the array pushed to.
  Each \<open>continue\<close> of the source is the recursive call of its branch.
\<close>

function parse_loop :: "jsstring list \<Rightarrow> nat \<Rightarrow> TestError list \<Rightarrow> TestError list" where
  "parse_loop lines i errors =
     (if i < length lines then
        (let line_text = lines ! i in
         case jestMatch line_text of
           Some m \<Rightarrow>
             parse_loop lines (i + 1)
               (errors @ [\<lparr>file' = group m 1, line = parseInt (group m 2),
                  message = getContextualError lines i, type = str ''jest''\<rparr>])
         | None \<Rightarrow>
            (case pythonMatch line_text of
               Some m \<Rightarrow>
                 parse_loop lines (i + 1)
                   (errors @ [\<lparr>file' = group m 1, line = parseInt (group m 2),
                      message = getContextualError lines i, type = str ''python''\<rparr>])
             | None \<Rightarrow>
                (case goMatch line_text of
                   Some m \<Rightarrow>
                     parse_loop lines (i + 1)
                       (errors @ [\<lparr>file' = group m 1, line = parseInt (group m 2),
                          message = getContextualError lines i, type = str ''go''\<rparr>])
                 | None \<Rightarrow>
                     if isErrorLine line_text then
                       parse_loop lines (i + 1)
                         (errors @ [\<lparr>file' = str ''unknown'', line = 0,
                            message = trim line_text, type = str ''generic''\<rparr>])
                     else parse_loop lines (i + 1) errors)))
      else errors)"
  by pat_completeness auto
termination
  by (relation "measure (\<lambda>(lines, i, errors). length lines - i)") auto

definition parseErrors :: "jsstring \<Rightarrow> TestError list" where
  "parseErrors output = parse_loop (split output [10]) 0 []"

subsection \<open>The parser as the specification describes it\<close>

text \<open>
  The error of one line: the first pattern family that matches the line, in the order
  JS/TS stack frame, Python traceback, Go, generic error line; none when no family
  matches.
\<close>

definition error_of_line :: "jsstring list \<Rightarrow> nat \<Rightarrow> TestError option" where
  "error_of_line lines i =
     (let line_text = lines ! i in
      case jestMatch line_text of
        Some m \<Rightarrow>
          Some \<lparr>file' = group m 1, line = parseInt (group m 2),
            message = getContextualError lines i, type = str ''jest''\<rparr>
      | None \<Rightarrow>
         (case pythonMatch line_text of
            Some m \<Rightarrow>
              Some \<lparr>file' = group m 1, line = parseInt (group m 2),
                message = getContextualError lines i, type = str ''python''\<rparr>
          | None \<Rightarrow>
             (case goMatch line_text of
                Some m \<Rightarrow>
                  Some \<lparr>file' = group m 1, line = parseInt (group m 2),
                    message = getContextualError lines i, type = str ''go''\<rparr>
              | None \<Rightarrow>
                  if isErrorLine line_text then
                    Some \<lparr>file' = str ''unknown'', line = 0, message = trim line_text,
                      type = str ''generic''\<rparr>
                  else None)))"

text \<open>The language tag of a line: that of the first family that matches it.\<close>

definition line_family :: "jsstring \<Rightarrow> jsstring option" where
  "line_family line_text =
     (if jestMatch line_text \<noteq> None then Some (str ''jest'')
      else if pythonMatch line_text \<noteq> None then Some (str ''python'')
      else if goMatch line_text \<noteq> None then Some (str ''go'')
      else if isErrorLine line_text then Some (str ''generic'')
      else None)"

section \<open>TestRunner: framework detection and selection\<close>

text \<open>An awaited call of the host either throws or returns a value.\<close>

datatype 'a io = Throws | Returns 'a

text \<open>
  A candidate of detection. The confidences are the decimal constants of the source
  (0.95, 0.9, 0.85, 0.8), taken as the numbers they denote: the code only compares them
  with each other and rounds their hundredfold, which gives the same order and the same
  integers in floating point.
\<close>

record DetectedFramework =
  name :: jsstring
  command :: jsstring
  confidence :: real

text \<open>
  What \<open>detectAllFrameworks\<close> reads of the value \<open>JSON.parse\<close> returns for
  \<open>package.json\<close>: whether \<open>packageJson.scripts?.test\<close> is truthy, and the entries of
  \<open>dependencies\<close> and \<open>devDependencies\<close> (version strings; the empty string is falsy).
  \<open>JSON.parse\<close> can also return \<open>null\<close>, and reading \<open>scripts\<close> of \<open>null\<close> throws.
\<close>

record package_json =
  scripts_test :: bool
  dependencies :: "jsstring \<rightharpoonup> jsstring"
  devDependencies :: "jsstring \<rightharpoonup> jsstring"

datatype json = JsonNull | JsonValue package_json

record quick_pick_item =
  label :: jsstring
  description :: jsstring
  detail :: jsstring
  command' :: jsstring

text \<open>
  \<open>execAsync\<close> resolves with \<open>stdout\<close> and \<open>stderr\<close> when the command exits with
  status 0; it rejects, on any other exit, a signal, the timeout or a failure to spawn,
  with an error that carries \<open>stdout\<close>, \<open>stderr\<close> (either may be missing) and \<open>message\<close>.
\<close>

datatype exec_result =
    Resolved jsstring jsstring
  | Rejected "jsstring option" "jsstring option" jsstring

text \<open>
  The host of a \<open>TestRunner\<close>: the configuration value \<open>aiTester.customTestCommand\<close>
  (with its default, the empty string), whether \<open>process.platform\<close> is \<open>win32\<close>, the
  file system below the workspace folder (files by their names in that folder), the
  quick pick shown to the human (no item when the human cancels) and the shell.
\<close>

record environment =
  customTestCommand :: jsstring
  win32 :: bool
  stat :: "jsstring \<Rightarrow> unit io"
  readFile :: "jsstring \<Rightarrow> jsstring io"
  JSON_parse :: "jsstring \<Rightarrow> json io"
  readdir :: "jsstring list io"
  showQuickPick :: "quick_pick_item list \<Rightarrow> quick_pick_item option"
  exec :: "jsstring \<Rightarrow> exec_result"

text \<open>The one field of a \<open>TestRunner\<close> that changes.\<close>

record TestRunner =
  selectedFramework :: "jsstring option"

text \<open>\<open>s.replace(pattern, replacement)\<close> for a pattern that is a string: the first
  occurrence only.\<close>

fun replace :: "jsstring \<Rightarrow> jsstring \<Rightarrow> jsstring \<Rightarrow> jsstring" where
  "replace [] pattern replacement = (if pattern = [] then replacement else [])"
| "replace (c # s) pattern replacement =
     (if prefix pattern (c # s) then replacement @ drop (length pattern) (c # s)
      else c # replace s pattern replacement)"

definition getNodeCommand :: "environment \<Rightarrow> jsstring \<Rightarrow> jsstring" where
  "getNodeCommand env cmd =
     (if win32 env then
        replace (replace cmd (str ''npm'') (str ''npm.cmd'')) (str ''npx'') (str ''npx.cmd'')
      else cmd)"

definition getPythonCommand :: "environment \<Rightarrow> jsstring \<Rightarrow> jsstring" where
  "getPythonCommand env cmd =
     (if win32 env then replace cmd (str ''python'') (str ''python.exe'')
      else replace cmd (str ''python'') (str ''python3''))"

definition fileExists :: "environment \<Rightarrow> jsstring \<Rightarrow> bool" where
  "fileExists env filePath = (case stat env filePath of Returns _ \<Rightarrow> True | Throws \<Rightarrow> False)"

definition findPythonTestFiles :: "environment \<Rightarrow> jsstring list" where
  "findPythonTestFiles env =
     (case readdir env of
        Returns files \<Rightarrow>
          filter (\<lambda>f. prefix (str ''test_'') f \<and> suffix (str ''.py'') f \<or>
                      suffix (str ''_test.py'') f) files
      | Throws \<Rightarrow> [])"

text \<open>A number in a template literal: its decimal digits.\<close>

function decimal :: "nat \<Rightarrow> jsstring" where
  "decimal n = (if n < 10 then [48 + n] else decimal (n div 10) @ [48 + n mod 10])"
  by pat_completeness auto
termination
  by (relation "measure (\<lambda>n. n)") auto

declare decimal.simps [simp del]

text \<open>\<open>dependencies[k]\<close> is truthy, for \<open>{...dependencies, ...devDependencies}\<close>.\<close>

definition truthy_dependency :: "package_json \<Rightarrow> jsstring \<Rightarrow> bool" where
  "truthy_dependency packageJson k =
     (case (dependencies packageJson ++ devDependencies packageJson) k of
        Some v \<Rightarrow> v \<noteq> []
      | None \<Rightarrow> False)"

text \<open>The frameworks pushed for a manifest that was read and parsed, in their order.\<close>

definition node_frameworks :: "environment \<Rightarrow> package_json \<Rightarrow> DetectedFramework list" where
  "node_frameworks env packageJson =
     (if scripts_test packageJson then
        [\<lparr>name = str ''npm test (package.json script)'',
          command = getNodeCommand env (str ''npm test''), confidence = 0.95\<rparr>]
      else []) @
     (if truthy_dependency packageJson (str ''jest'') then
        [\<lparr>name = str ''Jest'',
          command = getNodeCommand env (str ''npx jest --no-coverage --passWithNoTests''),
          confidence = 0.9\<rparr>]
      else []) @
     (if truthy_dependency packageJson (str ''mocha'') then
        [\<lparr>name = str ''Mocha'', command = getNodeCommand env (str ''npx mocha''),
          confidence = 0.85\<rparr>]
      else []) @
     (if truthy_dependency packageJson (str ''vitest'') then
        [\<lparr>name = str ''Vitest'', command = getNodeCommand env (str ''npx vitest run''),
          confidence = 0.85\<rparr>]
      else []) @
     (if truthy_dependency packageJson (str ''@playwright/test'') then
        [\<lparr>name = str ''Playwright'',
          command = getNodeCommand env (str ''npx playwright test''), confidence = 0.8\<rparr>]
      else []) @
     (if truthy_dependency packageJson (str ''cypress'') then
        [\<lparr>name = str ''Cypress'', command = getNodeCommand env (str ''npx cypress run''),
          confidence = 0.8\<rparr>]
      else [])"

text \<open>The frameworks pushed after the manifest: Python, Go, Rust.\<close>

definition other_frameworks :: "environment \<Rightarrow> DetectedFramework list" where
  "other_frameworks env =
     (if fileExists env (str ''pytest.ini'') \<or> fileExists env (str ''requirements.txt'') then
        [\<lparr>name = str ''pytest (detected config)'',
          command = getPythonCommand env (str ''python -m pytest -v --tb=short''),
          confidence = 0.9\<rparr>]
      else []) @
     (let pythonTestFiles = findPythonTestFiles env in
      if length pythonTestFiles > 0 then
        [\<lparr>name = str ''pytest ('' @ decimal (length pythonTestFiles) @
            str '' test files found)'',
          command = getPythonCommand env (str ''python -m pytest -v --tb=short''),
          confidence = 0.8\<rparr>]
      else []) @
     (if fileExists env (str ''go.mod'') then
        [\<lparr>name = str ''Go test'', command = str ''go test ./...'', confidence = 0.9\<rparr>]
      else []) @
     (if fileExists env (str ''Cargo.toml'') then
        [\<lparr>name = str ''Cargo test'', command = str ''cargo test'', confidence = 0.9\<rparr>]
      else [])"

text \<open>
  The \<open>try\<close> block of \<open>detectAllFrameworks\<close>: the array \<open>frameworks\<close> when the block is
  left, at its end or by a throw. \<open>fs.readFile\<close>, \<open>JSON.parse\<close> and the read of
  \<open>packageJson.scripts\<close> are the calls of the block that can throw; they stand before
  the first push.
\<close>

datatype attempt = Completed "DetectedFramework list" | Thrown "DetectedFramework list"

definition detect_try :: "environment \<Rightarrow> attempt" where
  "detect_try env =
     (if fileExists env (str ''package.json'') then
        (case readFile env (str ''package.json'') of
           Throws \<Rightarrow> Thrown []
         | Returns fileContent \<Rightarrow>
            (case JSON_parse env fileContent of
               Throws \<Rightarrow> Thrown []
             | Returns JsonNull \<Rightarrow> Thrown []
             | Returns (JsonValue packageJson) \<Rightarrow>
                 Completed (node_frameworks env packageJson @ other_frameworks env)))
      else Completed (other_frameworks env))"

text \<open>
  The \<open>catch\<close> only logs. The sort of an array is stable, and so is \<open>sort_key\<close>; the
  comparison \<open>b.confidence - a.confidence\<close> puts the higher confidence first.
\<close>

definition detectAllFrameworks :: "environment \<Rightarrow> DetectedFramework list" where
  "detectAllFrameworks env =
     (let frameworks = (case detect_try env of Completed fs \<Rightarrow> fs | Thrown fs \<Rightarrow> fs)
      in sort_key (\<lambda>fw. - confidence fw) frameworks)"

text \<open>
  The result of \<open>getTestCommand\<close> and of \<open>showFrameworkPicker\<close>: the value returned, the
  \<open>TestRunner\<close> afterwards, and the quick picks shown to the human on the way.
\<close>

type_synonym selection = "jsstring option \<times> TestRunner \<times> quick_pick_item list list"

definition picker_items :: "DetectedFramework list \<Rightarrow> quick_pick_item list" where
  "picker_items frameworks =
     map (\<lambda>fw. \<lparr>label = name fw, description = command fw,
              detail = str ''Confidence: '' @
                decimal (nat (round (confidence fw * 100))) @ str ''%'',
              command' = command fw\<rparr>) frameworks"

definition showFrameworkPicker ::
    "environment \<Rightarrow> TestRunner \<Rightarrow> DetectedFramework list \<Rightarrow> selection" where
  "showFrameworkPicker env runner frameworks =
     (let items = picker_items frameworks in
      case showQuickPick env items of
        Some selected \<Rightarrow>
          (Some (command' selected),
           runner\<lparr>selectedFramework := Some (command' selected)\<rparr>, [items])
      | None \<Rightarrow> (None, runner, [items]))"

text \<open>A string or \<open>null\<close> is truthy when it is a string that is not empty.\<close>

fun truthy :: "jsstring option \<Rightarrow> bool" where
  "truthy None = False"
| "truthy (Some s) = (s \<noteq> [])"

definition getTestCommand :: "environment \<Rightarrow> TestRunner \<Rightarrow> selection" where
  "getTestCommand env runner =
     (let customCommand = trim (customTestCommand env) in
      if customCommand \<noteq> [] then (Some customCommand, runner, [])
      else if truthy (selectedFramework runner) then (selectedFramework runner, runner, [])
      else
        (let detectedFrameworks = detectAllFrameworks env in
         case detectedFrameworks of
           [] \<Rightarrow> (None, runner, [])
         | [fw] \<Rightarrow> (Some (command fw), runner\<lparr>selectedFramework := Some (command fw)\<rparr>, [])
         | _ \<Rightarrow> showFrameworkPicker env runner detectedFrameworks))"

definition resetFrameworkSelection :: "TestRunner \<Rightarrow> TestRunner" where
  "resetFrameworkSelection runner = runner\<lparr>selectedFramework := None\<rparr>"

section \<open>TestRunner: running the tests\<close>

record TestResults =
  hasErrors :: bool
  errors' :: "TestError list"
  output' :: jsstring

definition failureIndicators :: "jsstring list" where
  "failureIndicators =
     [str ''FAILED'', str ''FAIL'', str ''failed'', str ''Error:'', str ''AssertionError'',
      str ''TypeError'', str ''ReferenceError'', str ''SyntaxError'', glyph_2715,
      glyph_2717, str ''test failed'', str ''tests failed'', str ''failure'',
      str ''failures'']"

definition containsTestFailures :: "jsstring \<Rightarrow> bool" where
  "containsTestFailures out =
     list_ex (\<lambda>indicator. includes_js (toLowerCase out) (toLowerCase indicator))
       failureIndicators"

text \<open>\<open>x || ''\<close> for a string that may be missing.\<close>

fun or_empty :: "jsstring option \<Rightarrow> jsstring" where
  "or_empty None = []"
| "or_empty (Some s) = s"

definition runTests :: "environment \<Rightarrow> TestRunner \<Rightarrow> TestResults \<times> TestRunner" where
  "runTests env runner =
     (case getTestCommand env runner of
        (testCommand, runner', shown) \<Rightarrow>
          if \<not> truthy testCommand then
            (\<lparr>hasErrors = False, errors' = [],
              output' = str ''No test framework detected''\<rparr>, runner')
          else
            (case exec env (or_empty testCommand) of
               Resolved stdout stderr \<Rightarrow>
                 (let out = stdout @ stderr in
                  (\<lparr>hasErrors = (length stderr > 0 \<or> containsTestFailures out),
                    errors' = parseErrors out, output' = out\<rparr>, runner'))
             | Rejected error_stdout error_stderr error_message \<Rightarrow>
                 (let errorOutput = or_empty error_stdout @ or_empty error_stderr in
                  (\<lparr>hasErrors = True,
                    errors' = parseErrors (errorOutput @ error_message),
                    output' = (if errorOutput \<noteq> [] then errorOutput else error_message)\<rparr>,
                   runner'))))"

text \<open>The command exited with a failure: \<open>execAsync\<close> rejected.\<close>

fun rejected :: "exec_result \<Rightarrow> bool" where
  "rejected (Rejected error_stdout error_stderr error_message) = True"
| "rejected (Resolved stdout stderr) = False"

subsection \<open>Environments to evaluate the runner on\<close>

text \<open>
  An empty workspace on Linux with no custom command, where the human cancels every quick
  pick and every command prints nothing and exits with status 0; and workspaces that hold
  \<open>go.mod\<close>, or \<open>go.mod\<close> and \<open>Cargo.toml\<close>, and nothing else.
\<close>

definition bare_environment :: environment where
  "bare_environment =
     \<lparr>customTestCommand = [], win32 = False, stat = (\<lambda>p. Throws),
      readFile = (\<lambda>p. Throws), JSON_parse = (\<lambda>t. Throws), readdir = Throws,
      showQuickPick = (\<lambda>items. None), exec = (\<lambda>c. Resolved [] [])\<rparr>"

definition go_environment :: environment where
  "go_environment =
     bare_environment\<lparr>stat := (\<lambda>p. if p = str ''go.mod'' then Returns () else Throws)\<rparr>"

definition go_rust_environment :: environment where
  "go_rust_environment =
     bare_environment\<lparr>stat := (\<lambda>p. if p = str ''go.mod'' \<or> p = str ''Cargo.toml''
        then Returns () else Throws)\<rparr>"

text \<open>The same, where the human picks the second item of the quick pick.\<close>

definition picking_environment :: environment where
  "picking_environment =
     go_rust_environment
       \<lparr>showQuickPick := (\<lambda>items. case items of a # b # others \<Rightarrow> Some b | _ \<Rightarrow> None)\<rparr>"

text \<open>The same with the custom command \<open>" pytest -q "\<close>.\<close>

definition custom_environment :: environment where
  "custom_environment = go_rust_environment\<lparr>customTestCommand := str '' pytest -q ''\<rparr>"

text \<open>
  A workspace with \<open>go.mod\<close> and a \<open>package.json\<close> that holds \<open>{\<close>, which
  \<open>JSON.parse\<close> refuses.
\<close>

definition malformed_manifest_environment :: environment where
  "malformed_manifest_environment =
     bare_environment
       \<lparr>stat := (\<lambda>p. if p = str ''go.mod'' \<or> p = str ''package.json''
          then Returns () else Throws),
        readFile := (\<lambda>p. if p = str ''package.json'' then Returns (str ''{'') else Throws)\<rparr>"

text \<open>
  Custom command \<open>npm test\<close>; the command exits with status 0 and prints a warning on
  \<open>stderr\<close>, or a mocha summary on \<open>stdout\<close>.
\<close>

definition warning_environment :: environment where
  "warning_environment =
     bare_environment
       \<lparr>customTestCommand := str ''npm test'',
        exec := (\<lambda>c. Resolved [] (str ''warning: deprecated''))\<rparr>"

definition failing_environment :: environment where
  "failing_environment =
     bare_environment
       \<lparr>customTestCommand := str ''npm test'',
        exec := (\<lambda>c. Resolved (str ''  3 passing'' @ [10] @ str ''  2 failing'') [])\<rparr>"

text \<open>Custom command \<open>npm test\<close>; the shell does not find \<open>npm\<close> and exits with 127.\<close>

definition crashing_environment :: environment where
  "crashing_environment =
     bare_environment
       \<lparr>customTestCommand := str ''npm test'',
        exec := (\<lambda>c. Rejected (Some []) (Some (str ''/bin/bash: npm: command not found''))
          (str ''Command failed: npm test''))\<rparr>"

definition jest_runner :: TestRunner where
  "jest_runner = \<lparr>selectedFramework = Some (str ''npx jest'')\<rparr>"

definition fresh_runner :: TestRunner where
  "fresh_runner = \<lparr>selectedFramework = None\<rparr>"

definition go_test :: DetectedFramework where
  "go_test = \<lparr>name = str ''Go test'', command = str ''go test ./...'', confidence = 0.9\<rparr>"

definition cargo_test :: DetectedFramework where
  "cargo_test = \<lparr>name = str ''Cargo test'', command = str ''cargo test'', confidence = 0.9\<rparr>"

section \<open>AITestingService\<close>

record AISuggestion =
  service :: jsstring
  suggestion :: jsstring
  fix' :: "jsstring option"
  confidence' :: real

text \<open>The fence of a code block: three backticks.\<close>

definition fence :: jsstring where
  "fence = [96, 96, 96]"

text \<open>No fence starts in \<open>x\<close>, whatever follows \<open>x\<close> after two backticks.\<close>

definition fence_free :: "jsstring \<Rightarrow> bool" where
  "fence_free x = (\<not> includes_js (x @ [96, 96]) fence)"

definition fenced_block :: regex where
  \<comment> \<open>\<^verbatim>\<open>/```[\s\S]*?```/g\<close>\<close>
  "fenced_block = seqs [lit fence, LazyStar AnyChar, lit fence]"

definition fence_markers :: regex where
  \<comment> \<open>\<^verbatim>\<open>/```\w*\n?|\n?```/g\<close>\<close>
  "fence_markers =
     Alt (seqs [lit fence, Star WordChar, Opt (Chr 10)]) (seqs [Opt (Chr 10), lit fence])"

text \<open>
  \<open>s.replace(r, '')\<close> for an expression with the flag \<open>g\<close>: every match is taken out,
  from left to right; after a match the search goes on behind it, and after an empty match
  one code unit further.
\<close>

function remove_all :: "regex \<Rightarrow> jsstring \<Rightarrow> jsstring" where
  "remove_all r s =
     (case run r (s, Map.empty) of
        (s', cp) # _ \<Rightarrow>
          if length s' < length s then remove_all r s'
          else (case s of [] \<Rightarrow> [] | c # t \<Rightarrow> c # remove_all r t)
      | [] \<Rightarrow> (case s of [] \<Rightarrow> [] | c # t \<Rightarrow> c # remove_all r t))"
  by pat_completeness auto
termination
  by (relation "measure (\<lambda>(r, s). length s)") auto

declare remove_all.simps [simp del]

definition extractSuggestion :: "jsstring \<Rightarrow> jsstring" where
  "extractSuggestion text =
     (let beforeCode = (case split text fence of piece # _ \<Rightarrow> piece | [] \<Rightarrow> [])
      in trim (substring0 beforeCode 300))"

text \<open>
  Of the array \<open>text.match(/.../g)\<close> only the first element is read; it is the first
  match of the expression, and the array is \<open>null\<close> when there is none.
\<close>

definition extractCodeFix :: "jsstring \<Rightarrow> jsstring option" where
  "extractCodeFix text =
     (case match text fenced_block of
        None \<Rightarrow> None
      | Some codeBlock \<Rightarrow>
          (let cleanedBlock = trim (remove_all fence_markers (matched codeBlock))
           in if length cleanedBlock > 10 then Some cleanedBlock else None))"

text \<open>
  The host of an \<open>AITestingService\<close>: the configuration value
  \<open>aiTester.enabledServices\<close>, the secret storage, and \<open>axios.post\<close> by URL, API key and
  prompt. A call of \<open>axios.post\<close> throws on a timeout, a transport failure or an error
  status; otherwise it returns the text found in the reply at the path the backend reads,
  if there is one. The prompt that \<open>createDetailedPrompt\<close> builds from the analysis and the
  test output is the same for every backend and is taken as given.
\<close>

record ai_environment =
  enabledServices :: "jsstring list"
  secrets_get :: "jsstring \<Rightarrow> jsstring option"
  post :: "jsstring \<Rightarrow> jsstring \<Rightarrow> jsstring \<Rightarrow> jsstring option io"

definition gemini_url :: jsstring where
  "gemini_url =
     str ''https://generativelanguage.googleapis.com/v1beta/models/gemini-pro:generateContent''"

definition openai_url :: jsstring where
  "openai_url = str ''https://api.openai.com/v1/chat/completions''"

definition claude_url :: jsstring where
  "claude_url = str ''https://api.anthropic.com/v1/messages''"

text \<open>
  The body of the three backend functions, which differ in the name of the secret, the
  URL, the name of the service and the confidence. Everything stands inside one \<open>try\<close>
  whose \<open>catch\<close> returns \<open>null\<close>.
\<close>

definition backend_suggestion ::
    "ai_environment \<Rightarrow> jsstring \<Rightarrow> jsstring \<Rightarrow> jsstring \<Rightarrow> real \<Rightarrow> jsstring \<Rightarrow>
     AISuggestion option" where
  "backend_suggestion env secret url service_name conf prompt =
     (let apiKey = secrets_get env secret in
      if \<not> truthy apiKey then None
      else
        (case post env url (or_empty apiKey) prompt of
           Throws \<Rightarrow> None
         | Returns text \<Rightarrow>
             if \<not> truthy text then None
             else Some \<lparr>service = service_name,
               suggestion = extractSuggestion (or_empty text),
               fix' = extractCodeFix (or_empty text), confidence' = conf\<rparr>))"

definition getGeminiSuggestion :: "ai_environment \<Rightarrow> jsstring \<Rightarrow> AISuggestion option" where
  "getGeminiSuggestion env prompt =
     backend_suggestion env (str ''geminiApiKey'') gemini_url (str ''Gemini'') 0.8 prompt"

definition getOpenAISuggestion :: "ai_environment \<Rightarrow> jsstring \<Rightarrow> AISuggestion option" where
  "getOpenAISuggestion env prompt =
     backend_suggestion env (str ''openaiApiKey'') openai_url (str ''ChatGPT'') 0.85 prompt"

definition getClaudeSuggestion :: "ai_environment \<Rightarrow> jsstring \<Rightarrow> AISuggestion option" where
  "getClaudeSuggestion env prompt =
     backend_suggestion env (str ''claudeApiKey'') claude_url (str ''Claude'') 0.9 prompt"

text \<open>What \<open>Promise.allSettled\<close> gives for one promise.\<close>

datatype 'a settled = Fulfilled 'a | RejectedPromise

text \<open>
  The three backend functions are \<open>async\<close> functions whose whole body is a \<open>try\<close> with a
  \<open>catch\<close> that returns: their promises fulfil.
\<close>

definition getSuggestions :: "ai_environment \<Rightarrow> jsstring \<Rightarrow> AISuggestion list" where
  "getSuggestions env prompt =
     (let promises =
            (if str ''gemini'' \<in> set (enabledServices env)
             then [Fulfilled (getGeminiSuggestion env prompt)] else []) @
            (if str ''openai'' \<in> set (enabledServices env)
             then [Fulfilled (getOpenAISuggestion env prompt)] else []) @
            (if str ''claude'' \<in> set (enabledServices env)
             then [Fulfilled (getClaudeSuggestion env prompt)] else [])
      in foldl (\<lambda>suggestions result.
           case result of
             Fulfilled (Some v) \<Rightarrow> suggestions @ [v]
           | _ \<Rightarrow> suggestions) [] promises)"

text \<open>The value of a promise as the list of what is pushed for it.\<close>

fun to_list :: "'a option \<Rightarrow> 'a list" where
  "to_list None = []"
| "to_list (Some x) = [x]"

subsection \<open>Replies and a host to evaluate the service on\<close>

text \<open>A reply with a fenced block of seventeen characters, and one of exactly ten.\<close>

definition reply_with_fix :: jsstring where
  "reply_with_fix =
     str ''Add the missing operand.'' @ [10] @ fence @ str ''js'' @ [10] @
     str ''const x = 1 + 22;'' @ [10] @ fence @ [10] @ str ''Done.''"

definition reply_ten :: jsstring where
  "reply_ten = str ''Fix:'' @ [10] @ fence @ [10] @ str ''x = 1 + 22'' @ [10] @ fence"

text \<open>A reply whose fence is never closed.\<close>

definition reply_open :: jsstring where
  "reply_open = str ''Try:'' @ [10] @ fence @ str ''js'' @ [10] @ str ''run()''"

definition reply_plain :: jsstring where
  "reply_plain = str ''  Use await. ''"

text \<open>
  All three backends are enabled and have a key; the request to Gemini times out, the
  other two reply.
\<close>

definition timeout_environment :: ai_environment where
  "timeout_environment =
     \<lparr>enabledServices = [str ''gemini'', str ''openai'', str ''claude''],
      secrets_get = (\<lambda>secret. Some (str ''key'')),
      post = (\<lambda>url apiKey prompt.
        if url = openai_url then Returns (Some (str ''Use await.''))
        else if url = claude_url then Returns (Some (str ''Check the import path.''))
        else Throws)\<rparr>"

text \<open>
  The same where the request to OpenAI times out and Gemini and Claude reply, and where
  the key of Claude is missing and Gemini and OpenAI reply.
\<close>

definition openai_timeout_environment :: ai_environment where
  "openai_timeout_environment =
     \<lparr>enabledServices = [str ''gemini'', str ''openai'', str ''claude''],
      secrets_get = (\<lambda>secret. Some (str ''key'')),
      post = (\<lambda>url apiKey prompt.
        if url = gemini_url then Returns (Some (str ''Use await.''))
        else if url = claude_url then Returns (Some (str ''Check the import path.''))
        else Throws)\<rparr>"

definition no_key_environment :: ai_environment where
  "no_key_environment =
     \<lparr>enabledServices = [str ''gemini'', str ''openai'', str ''claude''],
      secrets_get = (\<lambda>secret. if secret = str ''claudeApiKey'' then None
        else Some (str ''key'')),
      post = (\<lambda>url apiKey prompt.
        if url = gemini_url then Returns (Some (str ''Use await.''))
        else Returns (Some (str ''Check the import path.'')))\<rparr>"

subsection \<open>An output to evaluate the parser on\<close>

definition traceback_line :: jsstring where
  "traceback_line = str ''  File '' @ [34] @ str ''t.py'' @ [34] @ str '', line 3''"

definition example_output :: jsstring where
  "example_output =
     str ''    at /src/app.test.js:10:5'' @ [10] @
     traceback_line @ [10] @
     str ''main.go:7: bad'' @ [10] @
     str ''Error: boom'' @ [10] @
     str ''all good''"

text \<open>The example line of the specification.\<close>

definition type_error_line :: jsstring where
  "type_error_line =
     str ''TypeError: Cannot read properties of undefined (reading '' @ [39] @ str ''foo'' @
     [39] @ str '') at file.js:10:5''"

section \<open>Properties of the analyzer\<close>

lemma str_eq_iff [simp]: "str a = str b \<longleftrightarrow> a = b"
proof
  assume "str a = str b"
  then have "map (char_of :: nat \<Rightarrow> char) (str a) = map char_of (str b)"
    by simp
  then show "a = b"
    by (simp add: str_def comp_def)
qed simp

lemma str_Nil_iff [simp]: "str a = [] \<longleftrightarrow> a = []" "[] = str a \<longleftrightarrow> a = []"
  by (auto simp: str_def)

lemma count_of_increment:
  "count_of (increment cs k) c = count_of cs c + (if k = c then 1 else 0)"
  by (induction cs k rule: increment.induct) (auto simp: count_of_def)

lemma sum_increment: "sum_list (map snd (increment cs k)) = Suc (sum_list (map snd cs))"
  by (induction cs k rule: increment.induct) auto

lemma keys_increment: "fst ` set (increment cs k) = insert k (fst ` set cs)"
  by (induction cs k rule: increment.induct) auto

lemma distinct_increment:
  "distinct (map fst cs) \<Longrightarrow> distinct (map fst (increment cs k))"
proof (induction cs k rule: increment.induct)
  case (1 k)
  then show ?case by simp
next
  case (2 k' n r k)
  then show ?case
    using keys_increment [of r k] by auto
qed

lemma positive_increment:
  "\<forall>p \<in> set cs. 0 < snd p \<Longrightarrow> \<forall>p \<in> set (increment cs k). 0 < snd p"
  by (induction cs k rule: increment.induct) auto

lemma categorize_from_Nil [simp]: "categorize_from acc [] = acc"
  by (simp add: categorize_from_def)

lemma categorize_from_Cons [simp]:
  "categorize_from acc (e # es) =
     categorize_from (increment acc (getErrorCategory (message e))) es"
  by (simp add: categorize_from_def)

lemma categorizeErrors_from: "categorizeErrors errors = categorize_from [] errors"
  by (simp add: categorizeErrors_def categorize_from_def)

lemma count_of_categorize_from:
  "count_of (categorize_from acc errors) c = count_of acc c + category_count errors c"
  by (induction errors arbitrary: acc) (auto simp: count_of_increment category_count_def)

lemma sum_categorize_from:
  "sum_list (map snd (categorize_from acc errors)) = sum_list (map snd acc) + length errors"
  by (induction errors arbitrary: acc) (auto simp: sum_increment)

lemma distinct_categorize_from:
  "distinct (map fst acc) \<Longrightarrow> distinct (map fst (categorize_from acc errors))"
  by (induction errors arbitrary: acc) (auto simp: distinct_increment)

lemma positive_categorize_from:
  "\<forall>p \<in> set acc. 0 < snd p \<Longrightarrow> \<forall>p \<in> set (categorize_from acc errors). 0 < snd p"
proof (induction errors arbitrary: acc)
  case Nil
  then show ?case by simp
next
  case (Cons e es)
  then show ?case
    using positive_increment [of acc "getErrorCategory (message e)"] by simp
qed

lemma keys_categorize_from:
  "fst ` set (categorize_from acc errors) =
     fst ` set acc \<union> (\<lambda>e. getErrorCategory (message e)) ` set errors"
  by (induction errors arbitrary: acc) (simp_all add: keys_increment)

lemma count_of_Nil [simp]: "count_of [] c = 0"
  by (simp add: count_of_def)

lemma count_of_categorizeErrors:
  "count_of (categorizeErrors errors) c = category_count errors c"
  by (simp add: categorizeErrors_from count_of_categorize_from)

lemma greater_than_count_of: "greater_than (map_of cs k) n \<longleftrightarrow> count_of cs k > n"
  by (cases "map_of cs k") (auto simp: count_of_def)

lemma assessSeverity_step:
  "assessSeverity errors =
     severity_step (length errors)
       (category_count errors (str ''Syntax Error''))
       (category_count errors (str ''Reference Error''))
       (category_count errors (str ''Type Error''))"
  by (simp add: assessSeverity_def severity_step_def Let_def greater_than_count_of
      count_of_categorizeErrors)

lemma severity_step_mono:
  "n \<le> n' \<Longrightarrow> s \<le> s' \<Longrightarrow> r \<le> r' \<Longrightarrow> t \<le> t' \<Longrightarrow>
     severity_rank (severity_step n s r t) \<le> severity_rank (severity_step n' s' r' t')"
  by (auto simp: severity_step_def)

lemma category_count_mono:
  "mset xs \<subseteq># mset ys \<Longrightarrow> category_count xs c \<le> category_count ys c"
proof -
  assume sub: "mset xs \<subseteq># mset ys"
  let ?P = "\<lambda>e. getErrorCategory (message e) = c"
  have "filter_mset ?P (mset xs) \<subseteq># filter_mset ?P (mset ys)"
    using sub by (rule multiset_filter_mono)
  then have "size (filter_mset ?P (mset xs)) \<le> size (filter_mset ?P (mset ys))"
    by (rule size_mset_mono)
  then show ?thesis
    by (simp add: category_count_def flip: mset_filter)
qed

lemma getErrorCategory_cases:
  "getErrorCategory msg \<in> set all_categories"
  by (simp add: getErrorCategory_def all_categories_def Let_def)

lemma getErrorCategory_Other:
  "\<forall>t \<in> set trigger_substrings. \<not> includes_js (toLowerCase msg) t \<Longrightarrow>
     getErrorCategory msg = str ''Other''"
  by (simp add: getErrorCategory_def trigger_substrings_def Let_def)


subsection \<open>The analyzer on three errors\<close>

lemma category_syntax_error_1:
  "getErrorCategory (message syntax_error_1) = str ''Syntax Error''"
  by (simp add: syntax_error_1_def getErrorCategory_def toLowerCase_def lower_unit_def
      str_def)

lemma category_syntax_error_2:
  "getErrorCategory (message syntax_error_2) = str ''Syntax Error''"
  by (simp add: syntax_error_2_def getErrorCategory_def toLowerCase_def lower_unit_def
      str_def)

lemma no_trigger_other_error:
  "\<forall>t \<in> set trigger_substrings. \<not> includes_js (toLowerCase (message other_error)) t"
  by (simp add: other_error_def trigger_substrings_def toLowerCase_def lower_unit_def
      str_def)

lemma category_other_error: "getErrorCategory (message other_error) = str ''Other''"
  using no_trigger_other_error by (rule getErrorCategory_Other)

section \<open>The claims about the analyzer\<close>

text \<open>
  C4. For every error list the severity is the step function of the total error count and
  of the category counts: critical if the count exceeds 15 or the count of ``Syntax
  Error'' is positive, otherwise high if the count exceeds 10 or the count of ``Reference
  Error'' exceeds 2, otherwise medium if the count exceeds 5 or the count of ``Type
  Error'' exceeds 1, otherwise low. The count the analyzer holds for a category is the
  number of errors of that category, and two error lists with the same total and the same
  category counts have the same severity.
\<close>

theorem assessSeverity_step_function:
  "severity (analyzeErrors errors) =
     severity_step (errorCount (analyzeErrors errors))
       (count_of (errorTypes (analyzeErrors errors)) (str ''Syntax Error''))
       (count_of (errorTypes (analyzeErrors errors)) (str ''Reference Error''))
       (count_of (errorTypes (analyzeErrors errors)) (str ''Type Error'')) \<and>
   assessSeverity errors =
     severity_step (length errors)
       (count_of (categorizeErrors errors) (str ''Syntax Error''))
       (count_of (categorizeErrors errors) (str ''Reference Error''))
       (count_of (categorizeErrors errors) (str ''Type Error'')) \<and>
   count_of (categorizeErrors errors) k = category_count errors k \<and>
   (length errors = length others \<and>
    (\<forall>c. count_of (categorizeErrors errors) c = count_of (categorizeErrors others) c)
    \<longrightarrow> assessSeverity errors = assessSeverity others)"
  by (simp add: analyzeErrors_def assessSeverity_step count_of_categorizeErrors)

theorem assessSeverity_step_function_witness:
  "length [syntax_error_1, other_error] = length [syntax_error_2, other_error] \<and>
   (\<forall>c. count_of (categorizeErrors [syntax_error_1, other_error]) c =
        count_of (categorizeErrors [syntax_error_2, other_error]) c) \<and>
   assessSeverity [syntax_error_1, other_error] =
     assessSeverity [syntax_error_2, other_error]"
proof -
  have same: "categorizeErrors [syntax_error_1, other_error] =
      categorizeErrors [syntax_error_2, other_error]"
    by (simp add: categorizeErrors_def category_syntax_error_1 category_syntax_error_2)
  have hyp: "length [syntax_error_1, other_error] = length [syntax_error_2, other_error] \<and>
      (\<forall>c. count_of (categorizeErrors [syntax_error_1, other_error]) c =
           count_of (categorizeErrors [syntax_error_2, other_error]) c)"
    using same by simp
  show ?thesis
    using assessSeverity_step_function
      [of "[syntax_error_1, other_error]" _ "[syntax_error_2, other_error]"] hyp
    by blast
qed

text \<open>
  C8. Every error is put into exactly one category, one of the ten labels, and into
  ``Other'' when its lower-cased message contains none of the trigger substrings; so the
  numbers of \<open>categoryCounts\<close> add up to \<open>errorCount\<close>. The keys of \<open>categoryCounts\<close> are
  pairwise different and are the categories of the errors of the list.
\<close>

theorem categoryCounts_sum_errorCount:
  "sum_list (map snd (errorTypes (analyzeErrors errors))) =
     errorCount (analyzeErrors errors) \<and>
   sum_list (map snd (categorizeErrors errors)) = length errors \<and>
   distinct (map fst (categorizeErrors errors)) \<and>
   fst ` set (categorizeErrors errors) = (\<lambda>e. getErrorCategory (message e)) ` set errors \<and>
   getErrorCategory msg \<in> set all_categories \<and>
   ((\<forall>t \<in> set trigger_substrings. \<not> includes_js (toLowerCase msg) t) \<longrightarrow>
      getErrorCategory msg = str ''Other'')"
proof -
  have "sum_list (map snd (categorizeErrors errors)) = length errors"
    by (simp add: categorizeErrors_from sum_categorize_from)
  moreover have "distinct (map fst (categorizeErrors errors))"
    by (simp add: categorizeErrors_from distinct_categorize_from)
  moreover have "fst ` set (categorizeErrors errors) =
      (\<lambda>e. getErrorCategory (message e)) ` set errors"
    by (simp add: categorizeErrors_from keys_categorize_from)
  ultimately show ?thesis
    using getErrorCategory_cases [of msg] getErrorCategory_Other [of msg]
    by (simp add: analyzeErrors_def)
qed

theorem categoryCounts_sum_errorCount_witness:
  "\<not> list_ex (includes_js (toLowerCase (message other_error))) trigger_substrings \<and>
   getErrorCategory (message other_error) = str ''Other'' \<and>
   sum_list (map snd (categorizeErrors [syntax_error_1, other_error, syntax_error_2])) = 3"
  using categoryCounts_sum_errorCount
    [of "[syntax_error_1, other_error, syntax_error_2]" "message other_error"]
    no_trigger_other_error
  by (simp add: list_ex_iff)

text \<open>
  C9. Severity is monotonic: an error list that holds all the errors of another one (and
  possibly further ones, at any place) never has a strictly lower severity in the order
  low, medium, high, critical.
\<close>

theorem assessSeverity_monotonic:
  "mset errors \<subseteq># mset others \<Longrightarrow>
     severity_rank (assessSeverity errors) \<le> severity_rank (assessSeverity others)"
proof -
  assume sub: "mset errors \<subseteq># mset others"
  have "size (mset errors) \<le> size (mset others)"
    using sub by (rule size_mset_mono)
  then have "length errors \<le> length others"
    by simp
  then show ?thesis
    unfolding assessSeverity_step
    by (intro severity_step_mono category_count_mono sub)
qed

theorem assessSeverity_monotonic_witness:
  "mset [other_error] \<subseteq># mset [syntax_error_1, other_error] \<and>
   severity_rank (assessSeverity [other_error]) \<le>
     severity_rank (assessSeverity [syntax_error_1, other_error])"
proof -
  have sub: "mset [other_error] \<subseteq># mset [syntax_error_1, other_error]"
    by simp
  show ?thesis
    using sub assessSeverity_monotonic [OF sub] by simp
qed


section \<open>Properties of the regular expressions\<close>

lemma one_snd: "y \<in> set (one p x) \<Longrightarrow> snd y = snd x"
  by (cases "(p, x)" rule: one.cases) (auto split: if_splits)

text \<open>A match keeps the groups filled before it and fills its sure groups.\<close>

lemma run_groups:
  "y \<in> set (run r x) \<Longrightarrow> dom (snd x) \<union> sure_groups r \<subseteq> dom (snd y)"
proof (induction r x arbitrary: y rule: run.induct)
  case (8 r1 r2 x)
  then obtain z where z: "z \<in> set (run r1 x)" and y: "y \<in> set (run r2 z)"
    by (auto simp: run.simps(8))
  from "8.IH"(1) [OF z] "8.IH"(2) [OF z y] show ?case
    by (simp only: sure_groups.simps) blast
next
  case (9 r1 r2 x)
  then show ?case
    by (fastforce simp: run.simps(9))
next
  case (10 r x)
  from "10.prems" [unfolded run.simps(10) [of r x]] consider "y = x"
    | z where "z \<in> set (run r x)" "length (fst z) < length (fst x)"
        "y \<in> set (run (Star r) z)"
    by auto
  then show ?case
  proof cases
    case 1
    then show ?thesis by simp
  next
    case 2
    from "10.IH"(1) [OF 2(1)] "10.IH"(2) [of z y] 2 have
      "dom (snd x) \<subseteq> dom (snd z)" "dom (snd z) \<subseteq> dom (snd y)"
      by simp_all
    then show ?thesis
      by (simp only: sure_groups.simps) blast
  qed
next
  case (11 r x)
  from "11.prems" [unfolded run.simps(11) [of r x]] consider "y = x"
    | z where "z \<in> set (run r x)" "length (fst z) < length (fst x)"
        "y \<in> set (run (LazyStar r) z)"
    by auto
  then show ?case
  proof cases
    case 1
    then show ?thesis by simp
  next
    case 2
    from "11.IH"(1) [OF 2(1)] "11.IH"(2) [of z y] 2 have
      "dom (snd x) \<subseteq> dom (snd z)" "dom (snd z) \<subseteq> dom (snd y)"
      by simp_all
    then show ?thesis
      by (simp only: sure_groups.simps) blast
  qed
next
  case (12 n r x)
  then obtain z where z: "z \<in> set (run r x)"
    and y: "y = (fst z, (snd z)(n \<mapsto> take (length (fst x) - length (fst z)) (fst x)))"
    by (auto simp: run.simps(12))
  from "12.IH" [OF z] y show ?case
    by auto
qed (auto simp: run.simps(1-7) dest: one_snd)

lemma search_from_groups:
  "search_from r i s = Some m \<Longrightarrow> sure_groups r \<subseteq> dom (groups m)"
proof (induction r i s rule: search_from.induct)
  case (1 r i s)
  show ?case
  proof (cases "run r (s, Map.empty)")
    case Nil
    with 1 show ?thesis
      by (cases s) (auto simp: search_from.simps [of r i])
  next
    case (Cons y ys)
    then have "y \<in> set (run r (s, Map.empty))"
      by simp
    from run_groups [OF this] Cons "1.prems" show ?thesis
      by (cases y) (auto simp: search_from.simps [of r i])
  qed
qed

lemmas parser_regex_defs =
  jest_at_def jest_file_def python_traceback_def python_file_def go_file_def

text \<open>
  Every match \<open>parseErrors\<close> reads a file and a line from has its groups 1 and 2 filled.
\<close>

lemma matches_fill_groups:
  assumes "jestMatch l = Some m \<or> pythonMatch l = Some m \<or> goMatch l = Some m"
  shows "groups m 1 \<noteq> None \<and> groups m 2 \<noteq> None"
proof -
  from assms obtain r
    where r: "r \<in> {jest_at, jest_file, python_traceback, python_file, go_file}"
      and m: "match l r = Some m"
    by (cases "match l jest_at"; cases "match l python_traceback")
       (auto simp: jestMatch_def pythonMatch_def goMatch_def)
  from r have "{1, 2} \<subseteq> sure_groups r"
    by (auto simp: parser_regex_defs)
  with search_from_groups [OF m [unfolded match_def]] show ?thesis
    by auto
qed

text \<open>The facts that evaluate a regular expression of the sources on a given string.\<close>

lemmas regex_eval =
  run.simps search_from.simps parser_regex_defs errorPatterns_def Plus_def Opt_def str_def is_digit_def
  is_word_def is_line_terminator_def upper_unit_def match_def test_def glyph_2715_def
  glyph_2717_def jestMatch_def pythonMatch_def goMatch_def isErrorLine_def

section \<open>Properties of the parser\<close>

declare parse_loop.simps [simp del]

lemma parse_loop_done: "\<not> i < length lines \<Longrightarrow> parse_loop lines i errors = errors"
  by (simp add: parse_loop.simps)

lemma parse_loop_step:
  "i < length lines \<Longrightarrow>
     parse_loop lines i errors =
       parse_loop lines (Suc i)
         (errors @ (case error_of_line lines i of None \<Rightarrow> [] | Some e \<Rightarrow> [e]))"
  by (subst parse_loop.simps)
     (simp add: error_of_line_def Let_def split: option.splits)

lemma parse_loop_map_filter:
  "parse_loop lines i errors =
     errors @ List.map_filter (error_of_line lines) [i..<length lines]"
proof (induction "length lines - i" arbitrary: i errors)
  case 0
  then show ?case
    by (simp add: parse_loop_done List.map_filter_simps)
next
  case (Suc n)
  then have less: "i < length lines" and n: "n = length lines - Suc i"
    by simp_all
  show ?case
    using Suc.hyps(1) [OF n] less
    by (simp add: parse_loop_step upt_conv_Cons List.map_filter_simps split: option.splits)
qed

lemma length_map_filter_le: "length (List.map_filter f xs) \<le> length xs"
  by (induction xs) (simp_all add: List.map_filter_simps split: option.splits)

lemma family_of_error: "map_option type (error_of_line lines i) = line_family (lines ! i)"
  by (simp add: error_of_line_def line_family_def Let_def split: option.splits)

lemma generic_error_of_line:
  "line_family (lines ! i) = Some (str ''generic'') \<Longrightarrow>
     error_of_line lines i =
       Some \<lparr>file' = str ''unknown'', line = 0, message = trim (lines ! i),
         type = str ''generic''\<rparr>"
  by (simp add: error_of_line_def line_family_def Let_def split: option.splits if_splits)

lemma map_filter_map_option:
  "map g (List.map_filter f xs) = List.map_filter (\<lambda>x. map_option g (f x)) xs"
  by (induction xs) (simp_all add: List.map_filter_simps split: option.splits)

lemma map_filter_nth_upt:
  "List.map_filter (\<lambda>i. f (xs ! i)) [0..<length xs] = List.map_filter f xs"
proof -
  have "List.map_filter (\<lambda>i. f (xs ! i)) [0..<length xs] =
      List.map_filter f (map (\<lambda>i. xs ! i) [0..<length xs])"
    by (simp add: List.map_filter_def comp_def filter_map)
  then show ?thesis
    by (simp add: map_nth)
qed

lemma example_output_lines:
  "split example_output [10] =
     [str ''    at /src/app.test.js:10:5'', traceback_line,
      str ''main.go:7: bad'', str ''Error: boom'', str ''all good'']"
  by (simp add: example_output_def traceback_line_def split_def str_def)

lemma family_jest_line:
  "line_family (str ''    at /src/app.test.js:10:5'') = Some (str ''jest'')"
  by (simp add: line_family_def regex_eval)

lemma family_python_line: "line_family traceback_line = Some (str ''python'')"
  by (simp add: line_family_def traceback_line_def regex_eval)

lemma family_go_line: "line_family (str ''main.go:7: bad'') = Some (str ''go'')"
  by (simp add: line_family_def regex_eval)

lemma family_generic_line: "line_family (str ''Error: boom'') = Some (str ''generic'')"
  by (simp add: line_family_def regex_eval)

lemma family_no_line: "line_family (str ''all good'') = None"
  by (simp add: line_family_def regex_eval)

text \<open>
  A line number below \<open>2 ^ 53\<close> is read exactly; \<open>2 ^ 53 + 1\<close> is read as \<open>2 ^ 53\<close>, as a
  double has it.
\<close>

lemma number_value_exact: "n < 2 ^ 53 \<Longrightarrow> number_value n = enat n"
  by (simp add: number_value_def)

lemma bit_length_2_53_1: "bit_length 9007199254740993 = 54"
  by (simp add: bit_length.simps)

lemma parseInt_rounds: "parseInt (str ''9007199254740993'') = 9007199254740992"
proof -
  have "foldl (\<lambda>n c. 10 * n + (c - 48)) 0 (str ''9007199254740993'') =
      (9007199254740993 :: nat)"
    by (simp add: str_def)
  then show ?thesis
    by (simp add: parseInt_def number_value_def bit_length_2_53_1 numeral_eq_enat)
qed

text \<open>
  The example line of the specification: the stack frame gives the file and the line, the
  message is the line itself, and the analyzer puts it into ``Type Error''.
\<close>

lemma parse_type_error_line:
  "parseErrors (type_error_line) =
     [\<lparr>file' = str ''file.js'', line = 10, message = type_error_line,
       type = str ''jest''\<rparr>]"
proof -
  have lines: "split type_error_line [10] = [type_error_line]"
    by (simp add: type_error_line_def split_def str_def)
  have "jestMatch type_error_line =
      Some \<lparr>index = 63, matched = str ''at file.js:10:5'',
        groups = [1 \<mapsto> str ''file.js'', 2 \<mapsto> str ''10'', 3 \<mapsto> str ''5''], rest = []\<rparr>"
    by (simp add: type_error_line_def regex_eval)
  then have found: "error_of_line [type_error_line] 0 =
      Some \<lparr>file' = str ''file.js'', line = 10,
        message = getContextualError [type_error_line] 0, type = str ''jest''\<rparr>"
    by (simp add: error_of_line_def group_def parseInt_def)
       (simp add: str_def number_value_def numeral_eq_enat)
  have "getContextualError [type_error_line] 0 = type_error_line"
    by (simp add: getContextualError_def slice_def)
       (simp add: type_error_line_def trim_def is_whitespace_def str_def)
  with found lines show ?thesis
    by (simp add: parseErrors_def parse_loop_map_filter List.map_filter_simps)
qed

lemma category_type_error_line: "getErrorCategory type_error_line = str ''Type Error''"
  by (simp add: type_error_line_def getErrorCategory_def toLowerCase_def lower_unit_def
      str_def)

section \<open>The claim about the parser\<close>

text \<open>
  C3. For every raw output string the parser goes through the lines of the output once,
  in their order; each line gives at most one \<open>TestError\<close>, that of the first pattern
  family that matches the line in the order JS/TS stack frame (tag ``jest''), Python
  traceback (``python''), Go (``go''), generic error line (``generic'', with file
  ``unknown'' and line 0); the errors stand in the order of the lines of the output.
\<close>

theorem parseErrors_line_by_line:
  "parseErrors output =
     List.map_filter (error_of_line (split output [10]))
       [0..<length (split output [10])] \<and>
   length (parseErrors output) \<le> length (split output [10]) \<and>
   map type (parseErrors output) = List.map_filter line_family (split output [10]) \<and>
   map_option type (error_of_line lines i) = line_family (lines ! i) \<and>
   (line_family (lines ! i) = Some (str ''generic'') \<longrightarrow>
      error_of_line lines i =
        Some \<lparr>file' = str ''unknown'', line = 0, message = trim (lines ! i),
          type = str ''generic''\<rparr>)"
proof -
  let ?lines = "split output [10]"
  have eq: "parseErrors output =
      List.map_filter (error_of_line ?lines) [0..<length ?lines]"
    by (simp add: parseErrors_def parse_loop_map_filter)
  have "length (parseErrors output) \<le> length [0..<length ?lines]"
    unfolding eq by (rule length_map_filter_le)
  then have len: "length (parseErrors output) \<le> length ?lines"
    by simp
  have tags: "map type (parseErrors output) = List.map_filter line_family ?lines"
    unfolding eq
    by (simp add: map_filter_map_option family_of_error map_filter_nth_upt)
  show ?thesis
    using eq len tags family_of_error [of lines i] generic_error_of_line [of lines i]
    by blast
qed

theorem parseErrors_line_by_line_witness:
  "line_family (split example_output [10] ! 3) = Some (str ''generic'') \<and>
   error_of_line (split example_output [10]) 3 =
     Some \<lparr>file' = str ''unknown'', line = 0, message = str ''Error: boom'',
       type = str ''generic''\<rparr> \<and>
   map type (parseErrors example_output) =
     [str ''jest'', str ''python'', str ''go'', str ''generic'']"
proof -
  have hyp: "line_family (split example_output [10] ! 3) = Some (str ''generic'')"
    by (simp add: example_output_lines family_generic_line)
  have trimmed: "trim (split example_output [10] ! 3) = str ''Error: boom''"
    by (simp add: example_output_lines trim_def is_whitespace_def str_def)
  have families: "List.map_filter line_family (split example_output [10]) =
      [str ''jest'', str ''python'', str ''go'', str ''generic'']"
    by (simp add: example_output_lines List.map_filter_simps family_jest_line
        family_python_line family_go_line family_generic_line family_no_line)
  note claim =
    parseErrors_line_by_line [of example_output "split example_output [10]" 3]
  have tags: "map type (parseErrors example_output) =
      List.map_filter line_family (split example_output [10])"
    using claim by blast
  have generic: "error_of_line (split example_output [10]) 3 =
      Some \<lparr>file' = str ''unknown'', line = 0,
        message = trim (split example_output [10] ! 3), type = str ''generic''\<rparr>"
    using claim hyp by blast
  show ?thesis
    using hyp tags generic families trimmed by simp
qed


section \<open>Properties of detection and selection\<close>

lemmas detect_eval =
  detectAllFrameworks_def detect_try_def other_frameworks_def fileExists_def
  findPythonTestFiles_def go_test_def cargo_test_def

lemma detect_bare: "detectAllFrameworks bare_environment = []"
  by (simp add: bare_environment_def detect_eval)

lemma detect_go: "detectAllFrameworks go_environment = [go_test]"
  by (simp add: go_environment_def bare_environment_def detect_eval)

lemma detect_go_rust: "detectAllFrameworks go_rust_environment = [go_test, cargo_test]"
  by (simp add: go_rust_environment_def bare_environment_def detect_eval)

lemma detect_picking: "detectAllFrameworks picking_environment = [go_test, cargo_test]"
  by (simp add: picking_environment_def go_rust_environment_def bare_environment_def
      detect_eval)

lemma trim_custom: "trim (customTestCommand custom_environment) = str ''pytest -q''"
  by (simp add: custom_environment_def trim_def is_whitespace_def str_def)

lemma getTestCommand_custom:
  "trim (customTestCommand env) \<noteq> [] \<Longrightarrow>
     getTestCommand env runner = (Some (trim (customTestCommand env)), runner, [])"
  by (simp add: getTestCommand_def Let_def)

lemma getTestCommand_locked:
  "trim (customTestCommand env) = [] \<Longrightarrow> truthy (selectedFramework runner) \<Longrightarrow>
     getTestCommand env runner = (selectedFramework runner, runner, [])"
  by (simp add: getTestCommand_def Let_def)

lemma getTestCommand_single:
  "trim (customTestCommand env) = [] \<Longrightarrow> \<not> truthy (selectedFramework runner) \<Longrightarrow>
   detectAllFrameworks env = [fw] \<Longrightarrow>
     getTestCommand env runner =
       (Some (command fw), runner\<lparr>selectedFramework := Some (command fw)\<rparr>, [])"
  by (simp add: getTestCommand_def Let_def)

lemma getTestCommand_none:
  "trim (customTestCommand env) = [] \<Longrightarrow> \<not> truthy (selectedFramework runner) \<Longrightarrow>
   detectAllFrameworks env = [] \<Longrightarrow>
     getTestCommand env runner = (None, runner, [])"
  by (simp add: getTestCommand_def Let_def)

lemma getTestCommand_several:
  assumes "trim (customTestCommand env) = []" "\<not> truthy (selectedFramework runner)"
    and len: "2 \<le> length (detectAllFrameworks env)"
  shows "getTestCommand env runner =
    showFrameworkPicker env runner (detectAllFrameworks env)"
proof -
  from len obtain f g fs where "detectAllFrameworks env = f # g # fs"
    by (cases "detectAllFrameworks env"; cases "tl (detectAllFrameworks env)") auto
  with assms show ?thesis
    by (simp add: getTestCommand_def Let_def)
qed

lemma picker_cancel:
  "showQuickPick env (picker_items fws) = None \<Longrightarrow>
     showFrameworkPicker env runner fws = (None, runner, [picker_items fws])"
  by (simp add: showFrameworkPicker_def Let_def)

lemma picker_choice:
  "showQuickPick env (picker_items fws) = Some selected \<Longrightarrow>
     showFrameworkPicker env runner fws =
       (Some (command' selected), runner\<lparr>selectedFramework := Some (command' selected)\<rparr>,
        [picker_items fws])"
  by (simp add: showFrameworkPicker_def Let_def)

text \<open>No detected command is the empty string, on either platform.\<close>

lemma node_commands: "fw \<in> set (node_frameworks env p) \<Longrightarrow> command fw \<noteq> []"
  by (cases "win32 env")
     (auto simp: node_frameworks_def getNodeCommand_def str_def split: if_splits)

lemma other_commands: "fw \<in> set (other_frameworks env) \<Longrightarrow> command fw \<noteq> []"
  by (cases "win32 env")
     (auto simp: other_frameworks_def getPythonCommand_def str_def Let_def split: if_splits)

lemma detected_commands: "fw \<in> set (detectAllFrameworks env) \<Longrightarrow> command fw \<noteq> []"
  by (auto simp: detectAllFrameworks_def detect_try_def Let_def
      dest: node_commands other_commands split: if_splits io.splits json.splits)

text \<open>
  So the lock never holds the empty string, as long as the quick pick returns one of the
  items it was given: a lock that is set is truthy.
\<close>

lemma lock_never_empty:
  assumes lock: "selectedFramework runner \<noteq> Some []"
    and pick: "\<And>items selected. showQuickPick env items = Some selected \<Longrightarrow>
      selected \<in> set items"
  shows "selectedFramework (fst (snd (getTestCommand env runner))) \<noteq> Some []"
proof (cases "trim (customTestCommand env) \<noteq> [] \<or> truthy (selectedFramework runner)")
  case True
  with lock show ?thesis
    by (auto simp: getTestCommand_def Let_def)
next
  case False
  let ?fws = "detectAllFrameworks env"
  show ?thesis
  proof (cases ?fws)
    case Nil
    with False lock show ?thesis
      by (simp add: getTestCommand_def Let_def)
  next
    case (Cons f fs)
    show ?thesis
    proof (cases fs)
      case Nil
      with Cons have "f \<in> set ?fws"
        by simp
      then have "command f \<noteq> []"
        by (rule detected_commands)
      with False Cons Nil show ?thesis
        by (simp add: getTestCommand_def Let_def)
    next
      case (Cons g gs)
      with \<open>?fws = f # fs\<close> have "2 \<le> length ?fws"
        by simp
      with False have eq: "getTestCommand env runner = showFrameworkPicker env runner ?fws"
        by (simp add: getTestCommand_several)
      show ?thesis
      proof (cases "showQuickPick env (picker_items ?fws)")
        case None
        with eq lock show ?thesis
          by (simp add: picker_cancel)
      next
        case (Some selected)
        then have "selected \<in> set (picker_items ?fws)"
          by (rule pick)
        then obtain fw where "fw \<in> set ?fws" "command' selected = command fw"
          by (auto simp: picker_items_def)
        with detected_commands [of fw env] eq Some show ?thesis
          by (simp add: picker_choice)
      qed
    qed
  qed
qed

section \<open>The claim about the framework selector\<close>

text \<open>
  C1. \<open>getTestCommand\<close> resolves one command string or \<open>null\<close> by strict priority, in
  every state. (1) A configured custom command that is not empty after trimming is
  returned (trimmed), whatever the lock and whatever is in the workspace, and nothing is
  shown. (2) Otherwise a locked-in session command is returned as it is. (3) Otherwise,
  when detection yields exactly one candidate, its command is locked in and returned, and
  nothing is shown. (4) When detection yields two or more candidates the quick pick is
  shown once, with the candidates in their order; when the human cancels, \<open>null\<close> is
  returned and the lock is left as it was. (5) When detection yields no candidate,
  \<open>null\<close> is returned.
\<close>

theorem getTestCommand_priority:
  "(trim (customTestCommand env) \<noteq> [] \<longrightarrow>
      getTestCommand env runner = (Some (trim (customTestCommand env)), runner, [])) \<and>
   (trim (customTestCommand env) = [] \<and> truthy (selectedFramework runner) \<longrightarrow>
      getTestCommand env runner = (selectedFramework runner, runner, [])) \<and>
   (trim (customTestCommand env) = [] \<and> \<not> truthy (selectedFramework runner) \<and>
    detectAllFrameworks env = [fw] \<longrightarrow>
      getTestCommand env runner =
        (Some (command fw), runner\<lparr>selectedFramework := Some (command fw)\<rparr>, [])) \<and>
   (trim (customTestCommand env) = [] \<and> \<not> truthy (selectedFramework runner) \<and>
    2 \<le> length (detectAllFrameworks env) \<and>
    showQuickPick env (picker_items (detectAllFrameworks env)) = None \<longrightarrow>
      getTestCommand env runner =
        (None, runner, [picker_items (detectAllFrameworks env)])) \<and>
   (trim (customTestCommand env) = [] \<and> \<not> truthy (selectedFramework runner) \<and>
    2 \<le> length (detectAllFrameworks env) \<and>
    showQuickPick env (picker_items (detectAllFrameworks env)) = Some selected \<longrightarrow>
      getTestCommand env runner =
        (Some (command' selected), runner\<lparr>selectedFramework := Some (command' selected)\<rparr>,
         [picker_items (detectAllFrameworks env)])) \<and>
   (trim (customTestCommand env) = [] \<and> \<not> truthy (selectedFramework runner) \<and>
    detectAllFrameworks env = [] \<longrightarrow>
      getTestCommand env runner = (None, runner, []))"
  by (simp add: getTestCommand_custom getTestCommand_locked getTestCommand_single
      getTestCommand_none getTestCommand_several picker_cancel picker_choice)

theorem getTestCommand_priority_witness:
  "getTestCommand custom_environment jest_runner = (Some (str ''pytest -q''), jest_runner, []) \<and>
   getTestCommand go_rust_environment jest_runner =
     (Some (str ''npx jest''), jest_runner, []) \<and>
   getTestCommand go_environment fresh_runner =
     (Some (str ''go test ./...''),
      fresh_runner\<lparr>selectedFramework := Some (str ''go test ./...'')\<rparr>, []) \<and>
   getTestCommand go_rust_environment fresh_runner =
     (None, fresh_runner, [picker_items [go_test, cargo_test]]) \<and>
   getTestCommand picking_environment fresh_runner =
     (Some (str ''cargo test''),
      fresh_runner\<lparr>selectedFramework := Some (str ''cargo test'')\<rparr>,
      [picker_items [go_test, cargo_test]]) \<and>
   getTestCommand bare_environment fresh_runner = (None, fresh_runner, [])"
proof -
  have no_custom:
    "trim (customTestCommand go_rust_environment) = []"
    "trim (customTestCommand go_environment) = []"
    "trim (customTestCommand picking_environment) = []"
    "trim (customTestCommand bare_environment) = []"
    by (simp_all add: go_rust_environment_def go_environment_def picking_environment_def
        bare_environment_def trim_def)
  have cancel: "showQuickPick go_rust_environment
      (picker_items (detectAllFrameworks go_rust_environment)) = None"
    by (simp add: go_rust_environment_def bare_environment_def)
  let ?second = "hd (tl (picker_items [go_test, cargo_test]))"
  have pick: "showQuickPick picking_environment
      (picker_items (detectAllFrameworks picking_environment)) = Some ?second"
    by (simp add: detect_picking) (simp add: picking_environment_def picker_items_def)
  have second: "command' ?second = str ''cargo test''"
    by (simp add: picker_items_def cargo_test_def)
  have 1: "getTestCommand custom_environment jest_runner =
      (Some (str ''pytest -q''), jest_runner, [])"
    using getTestCommand_priority [of custom_environment jest_runner]
    by (simp add: trim_custom)
  have 2: "getTestCommand go_rust_environment jest_runner =
      (Some (str ''npx jest''), jest_runner, [])"
    using getTestCommand_priority [of go_rust_environment jest_runner] no_custom
    by (simp add: jest_runner_def)
  have 3: "getTestCommand go_environment fresh_runner =
      (Some (str ''go test ./...''),
       fresh_runner\<lparr>selectedFramework := Some (str ''go test ./...'')\<rparr>, [])"
    using getTestCommand_priority [of go_environment fresh_runner go_test] no_custom
    by (simp add: fresh_runner_def detect_go go_test_def)
  have 4: "getTestCommand go_rust_environment fresh_runner =
      (None, fresh_runner, [picker_items [go_test, cargo_test]])"
    using getTestCommand_priority [of go_rust_environment fresh_runner] no_custom cancel
    by (simp add: fresh_runner_def detect_go_rust)
  have 5: "getTestCommand picking_environment fresh_runner =
      (Some (str ''cargo test''),
       fresh_runner\<lparr>selectedFramework := Some (str ''cargo test'')\<rparr>,
       [picker_items [go_test, cargo_test]])"
    using getTestCommand_priority [of picking_environment fresh_runner _ ?second]
      no_custom pick second
    by (simp add: fresh_runner_def detect_picking)
  have 6: "getTestCommand bare_environment fresh_runner = (None, fresh_runner, [])"
    using getTestCommand_priority [of bare_environment fresh_runner] no_custom
    by (simp add: fresh_runner_def detect_bare)
  from 1 2 3 4 5 6 show ?thesis
    by simp
qed

section \<open>Failures while detecting\<close>

text \<open>
  A failure of \<open>fs.stat\<close> or of \<open>fs.readdir\<close> is caught where it happens, inside
  \<open>fileExists\<close> and \<open>findPythonTestFiles\<close>: detection goes on as if the file were not
  there, or the folder were empty.
\<close>

lemma node_frameworks_readdir [simp]:
  "node_frameworks (env\<lparr>readdir := r\<rparr>) p = node_frameworks env p"
  by (simp add: node_frameworks_def getNodeCommand_def)

lemma other_frameworks_readdir:
  "other_frameworks (env\<lparr>readdir := Throws\<rparr>) =
     other_frameworks (env\<lparr>readdir := Returns []\<rparr>)"
  by (simp add: other_frameworks_def fileExists_def findPythonTestFiles_def
      getPythonCommand_def)

lemma readdir_failure_isolated:
  "detectAllFrameworks (env\<lparr>readdir := Throws\<rparr>) =
     detectAllFrameworks (env\<lparr>readdir := Returns []\<rparr>)"
proof -
  have "detect_try (env\<lparr>readdir := Throws\<rparr>) = detect_try (env\<lparr>readdir := Returns []\<rparr>)"
    by (simp add: detect_try_def fileExists_def other_frameworks_readdir
        split: io.splits json.splits)
  then show ?thesis
    by (simp add: detectAllFrameworks_def)
qed

text \<open>
  A failure of \<open>fs.readFile\<close> or of \<open>JSON.parse\<close> on \<open>package.json\<close> is caught by the
  one \<open>catch\<close> around all the sources: nothing is detected at all.
\<close>

lemma manifest_failure_aborts:
  "fileExists env (str ''package.json'') \<Longrightarrow>
   readFile env (str ''package.json'') = Throws \<or>
   (\<exists>t. readFile env (str ''package.json'') = Returns t \<and> JSON_parse env t = Throws) \<Longrightarrow>
     detectAllFrameworks env = []"
  by (auto simp: detectAllFrameworks_def detect_try_def)

text \<open>
  C5. Detection tolerates the failure of one signal source: an I/O error while probing
  one source does not abort the inspection of the others, and every source that does not
  fail contributes its candidates. The code does not do so for the manifest: in a
  workspace with \<open>go.mod\<close> and a \<open>package.json\<close> that \<open>JSON.parse\<close> refuses, nothing is
  detected, although \<open>go.mod\<close> is found when it is probed, and the same workspace
  without \<open>package.json\<close> yields the candidate ``Go test''.
\<close>

theorem detectAllFrameworks_malformed_manifest:
  "detectAllFrameworks malformed_manifest_environment = [] \<and>
   fileExists malformed_manifest_environment (str ''go.mod'') \<and>
   detectAllFrameworks go_environment = [go_test]"
proof -
  have "detectAllFrameworks malformed_manifest_environment = []"
    by (simp add: malformed_manifest_environment_def bare_environment_def
        detectAllFrameworks_def detect_try_def fileExists_def)
  moreover have "fileExists malformed_manifest_environment (str ''go.mod'')"
    by (simp add: malformed_manifest_environment_def bare_environment_def fileExists_def)
  ultimately show ?thesis
    using detect_go by simp
qed

section \<open>Properties of the test executor\<close>

lemma runTests_resolved_command:
  assumes "getTestCommand env runner = (Some cmd, runner', shown)" "cmd \<noteq> []"
  shows "hasErrors (fst (runTests env runner)) =
    (case exec env cmd of
       Rejected error_stdout error_stderr error_message \<Rightarrow> True
     | Resolved stdout stderr \<Rightarrow> stderr \<noteq> [] \<or> containsTestFailures (stdout @ stderr))"
  using assms by (simp add: runTests_def Let_def split: exec_result.splits)

lemma runTests_no_command:
  assumes "getTestCommand env runner = (None, runner', shown)"
  shows "\<not> hasErrors (fst (runTests env runner))"
  using assms by (simp add: runTests_def)

lemma containsTestFailures_iff:
  "containsTestFailures out \<longleftrightarrow>
     (\<exists>indicator \<in> set failureIndicators.
        includes_js (toLowerCase out) (toLowerCase indicator))"
  by (simp add: containsTestFailures_def list_ex_iff)

lemmas failures_eval =
  containsTestFailures_def failureIndicators_def toLowerCase_def lower_unit_def str_def
  glyph_2715_def glyph_2717_def

lemma command_warning_environment:
  "getTestCommand warning_environment fresh_runner =
     (Some (str ''npm test''), fresh_runner, [])"
proof -
  have "trim (customTestCommand warning_environment) = str ''npm test''"
    by (simp add: warning_environment_def bare_environment_def trim_def is_whitespace_def
        str_def)
  then show ?thesis
    using getTestCommand_custom [of warning_environment fresh_runner] by simp
qed

lemma command_failing_environment:
  "getTestCommand failing_environment fresh_runner =
     (Some (str ''npm test''), fresh_runner, [])"
proof -
  have "trim (customTestCommand failing_environment) = str ''npm test''"
    by (simp add: failing_environment_def bare_environment_def trim_def is_whitespace_def
        str_def)
  then show ?thesis
    using getTestCommand_custom [of failing_environment fresh_runner] by simp
qed

lemma command_crashing_environment:
  "getTestCommand crashing_environment fresh_runner =
     (Some (str ''npm test''), fresh_runner, [])"
proof -
  have "trim (customTestCommand crashing_environment) = str ''npm test''"
    by (simp add: crashing_environment_def bare_environment_def trim_def is_whitespace_def
        str_def)
  then show ?thesis
    using getTestCommand_custom [of crashing_environment fresh_runner] by simp
qed

lemma warning_no_indicator: "\<not> containsTestFailures (str ''warning: deprecated'')"
  by (simp add: failures_eval)

lemma failing_indicator:
  "containsTestFailures (str ''  3 passing'' @ [10] @ str ''  2 failing'')"
  by (simp add: failures_eval)

section \<open>The claims about the test executor\<close>

text \<open>
  C2, as the code has it. For every test run (a run of the command that
  \<open>getTestCommand\<close> resolved), \<open>hasErrors\<close> is true if and only if the process exits with
  a failure, or it wrote something to \<open>stderr\<close>, or the combined output of \<open>stdout\<close> and
  \<open>stderr\<close>, in lower case, contains the lower-case form of one of the fourteen failure
  indicators. A run with exit code 0 whose output contains ``2 failing'' has
  \<open>hasErrors\<close> true.
\<close>

theorem runTests_hasErrors:
  "(getTestCommand env runner = (Some cmd, runner', shown) \<and> cmd \<noteq> [] \<longrightarrow>
      hasErrors (fst (runTests env runner)) =
        (case exec env cmd of
           Rejected error_stdout error_stderr error_message \<Rightarrow> True
         | Resolved stdout stderr \<Rightarrow>
             stderr \<noteq> [] \<or> containsTestFailures (stdout @ stderr))) \<and>
   (containsTestFailures out \<longleftrightarrow>
      (\<exists>indicator \<in> set failureIndicators.
         includes_js (toLowerCase out) (toLowerCase indicator))) \<and>
   failureIndicators =
     [str ''FAILED'', str ''FAIL'', str ''failed'', str ''Error:'', str ''AssertionError'',
      str ''TypeError'', str ''ReferenceError'', str ''SyntaxError'', [0x2715], [0x2717],
      str ''test failed'', str ''tests failed'', str ''failure'', str ''failures'']"
  using runTests_resolved_command [of env runner cmd runner' shown]
    containsTestFailures_iff [of out]
  by (simp add: failureIndicators_def glyph_2715_def glyph_2717_def)

theorem runTests_hasErrors_witness:
  "getTestCommand failing_environment fresh_runner =
     (Some (str ''npm test''), fresh_runner, []) \<and>
   exec failing_environment (str ''npm test'') =
     Resolved (str ''  3 passing'' @ [10] @ str ''  2 failing'') [] \<and>
   hasErrors (fst (runTests failing_environment fresh_runner)) \<and>
   getTestCommand crashing_environment fresh_runner =
     (Some (str ''npm test''), fresh_runner, []) \<and>
   rejected (exec crashing_environment (str ''npm test'')) \<and>
   hasErrors (fst (runTests crashing_environment fresh_runner))"
proof -
  have run: "exec failing_environment (str ''npm test'') =
      Resolved (str ''  3 passing'' @ [10] @ str ''  2 failing'') []"
    by (simp add: failing_environment_def bare_environment_def)
  have crash: "exec crashing_environment (str ''npm test'') =
      Rejected (Some []) (Some (str ''/bin/bash: npm: command not found''))
        (str ''Command failed: npm test'')"
    by (simp add: crashing_environment_def bare_environment_def)
  have 1: "hasErrors (fst (runTests failing_environment fresh_runner))"
    using runTests_hasErrors
      [of failing_environment fresh_runner "str ''npm test''" fresh_runner "[]"]
      command_failing_environment failing_indicator
    by (simp add: run)
  have 2: "hasErrors (fst (runTests crashing_environment fresh_runner))"
    using runTests_hasErrors
      [of crashing_environment fresh_runner "str ''npm test''" fresh_runner "[]"]
      command_crashing_environment
    by (simp add: crash)
  from 1 2 command_failing_environment command_crashing_environment run crash
  show ?thesis
    by simp
qed

text \<open>
  C2, as it is stated, fails: a command that exits with status 0, prints nothing on
  \<open>stdout\<close> and a warning on \<open>stderr\<close> is reported with \<open>hasErrors\<close> true, although the
  process did not fail and the output contains no failure indicator.
\<close>

theorem runTests_hasErrors_counterexample:
  "hasErrors (fst (runTests warning_environment fresh_runner)) \<and>
   \<not> (rejected (exec warning_environment (str ''npm test'')) \<or>
      containsTestFailures (output' (fst (runTests warning_environment fresh_runner))))"
proof -
  have run: "exec warning_environment (str ''npm test'') =
      Resolved [] (str ''warning: deprecated'')"
    by (simp add: warning_environment_def bare_environment_def)
  show ?thesis
    using command_warning_environment warning_no_indicator
    by (simp add: runTests_def run)
qed

text \<open>
  C10. When the command exits with status 0 (\<open>execAsync\<close> does not throw) and writes
  something to \<open>stderr\<close>, \<open>runTests\<close> sets \<open>hasErrors\<close>, whatever the output contains.
\<close>

theorem runTests_stderr_suffices:
  "getTestCommand env runner = (Some cmd, runner', shown) \<Longrightarrow> cmd \<noteq> [] \<Longrightarrow>
   exec env cmd = Resolved stdout stderr \<Longrightarrow> stderr \<noteq> [] \<Longrightarrow>
     hasErrors (fst (runTests env runner))"
  by (simp add: runTests_resolved_command)

theorem runTests_stderr_suffices_witness:
  "getTestCommand warning_environment fresh_runner =
     (Some (str ''npm test''), fresh_runner, []) \<and>
   exec warning_environment (str ''npm test'') = Resolved [] (str ''warning: deprecated'') \<and>
   \<not> containsTestFailures ([] @ str ''warning: deprecated'') \<and>
   hasErrors (fst (runTests warning_environment fresh_runner))"
proof -
  have run: "exec warning_environment (str ''npm test'') =
      Resolved [] (str ''warning: deprecated'')"
    by (simp add: warning_environment_def bare_environment_def)
  have "hasErrors (fst (runTests warning_environment fresh_runner))"
    using runTests_stderr_suffices [OF command_warning_environment _ run]
    by simp
  with command_warning_environment run warning_no_indicator show ?thesis
    by simp
qed


section \<open>Properties of the regular expressions of the suggestion service\<close>


lemma run_lit: "run (lit w) (s, cp) = (if prefix w s then [(drop (length w) s, cp)] else [])"
proof (induction w arbitrary: s)
  case Nil
  then show ?case by (simp add: run.simps)
next
  case (Cons c w)
  then show ?case
    by (cases s) (auto simp: run.simps(2,8))
qed

lemma run_lit_Seq:
  "run (Seq (lit w) r) (s, cp) = (if prefix w s then run r (drop (length w) s, cp) else [])"
  by (simp add: run.simps(8) run_lit)

lemma run_Seq_Empty: "run (Seq r Empty) x = run r x"
proof -
  have "concat (map (run Empty) ys) = ys" for ys
    by (induction ys) (simp_all add: run.simps(1))
  then show ?thesis
    by (simp add: run.simps(8))
qed

lemma run_lazy_any_Cons:
  "run (LazyStar AnyChar) (c # t, cp) = (c # t, cp) # run (LazyStar AnyChar) (t, cp)"
  by (subst run.simps(11)) (simp add: run.simps(7))

lemma run_lazy_any_Seq_Cons:
  "run (Seq (LazyStar AnyChar) q) (c # t, cp) =
     run q (c # t, cp) @ run (Seq (LazyStar AnyChar) q) (t, cp)"
  by (simp add: run.simps(8) run_lazy_any_Cons)

lemma fence_free_Cons:
  "fence_free (c # x) \<Longrightarrow> fence_free x \<and> \<not> prefix fence (c # x @ fence @ r)"
proof
  assume free: "fence_free (c # x)"
  then show "fence_free x"
    by (simp add: fence_free_def)
  from free have nofence: "\<not> prefix fence (c # x @ [96, 96])"
    by (simp add: fence_free_def)
  show "\<not> prefix fence (c # x @ fence @ r)"
  proof
    assume p: "prefix fence (c # x @ fence @ r)"
    have "prefix (c # x @ [96, 96]) (c # x @ fence @ r)"
      by (simp add: fence_def)
    from prefix_length_prefix [OF p this] nofence show False
      by (simp add: fence_def)
  qed
qed

lemma split_from_no_fence:
  "\<not> includes_js reply fence \<Longrightarrow> split_from 96 [96, 96] cur reply = [cur @ reply]"
  by (induction reply arbitrary: cur) (auto simp: fence_def)

lemma split_from_first_fence:
  "fence_free before \<Longrightarrow>
     split_from 96 [96, 96] cur (before @ fence @ after) =
       (cur @ before) # split_from 96 [96, 96] [] after"
proof (induction before arbitrary: cur)
  case Nil
  then show ?case
    by (simp add: fence_def)
next
  case (Cons c before)
  from fence_free_Cons [OF Cons.prems, of after]
  have free: "fence_free before" and nofence: "\<not> prefix fence (c # before @ fence @ after)"
    by simp_all
  from nofence have "\<not> prefix [96, 96, 96] (c # before @ fence @ after)"
    by (simp add: fence_def)
  then show ?case
    using Cons.IH [OF free, of "cur @ [c]"] by simp
qed

lemma run_fenced_block:
  "run fenced_block (s, cp) =
     (if prefix fence s
      then run (Seq (LazyStar AnyChar) (Seq (lit fence) Empty)) (drop (length fence) s, cp)
      else [])"
  by (simp add: fenced_block_def run_lit_Seq)

lemma fence_not_prefix_Nil [simp]: "\<not> prefix fence []"
  by (simp add: fence_def)

lemma search_no_fence:
  "\<not> includes_js reply fence \<Longrightarrow> search_from fenced_block i reply = None"
proof (induction reply arbitrary: i)
  case Nil
  then show ?case
    by (simp add: search_from.simps run_fenced_block)
next
  case (Cons c reply)
  then have "\<not> prefix fence (c # reply)" "\<not> includes_js reply fence"
    by simp_all
  then show ?case
    using Cons.IH [of "Suc i"]
    by (subst search_from.simps) (simp add: run_fenced_block)
qed

lemma run_to_closing_fence:
  "fence_free body \<Longrightarrow>
     \<exists>ys. run (Seq (LazyStar AnyChar) (Seq (lit fence) Empty)) (body @ fence @ after, cp) =
       (after, cp) # ys"
proof (induction body)
  case Nil
  have "run (Seq (LazyStar AnyChar) (Seq (lit fence) Empty)) (96 # 96 # 96 # after, cp) =
      (after, cp) # run (Seq (LazyStar AnyChar) (Seq (lit fence) Empty)) (96 # 96 # after, cp)"
    by (simp add: run_lazy_any_Seq_Cons run_Seq_Empty run_lit) (simp add: fence_def)
  then show ?case
    by (simp add: fence_def)
next
  case (Cons c body)
  from fence_free_Cons [OF Cons.prems, of after]
  have free: "fence_free body" and nofence: "\<not> prefix fence (c # body @ fence @ after)"
    by simp_all
  from Cons.IH [OF free] nofence show ?case
    by (simp add: run_lazy_any_Seq_Cons run_Seq_Empty run_lit)
qed

lemma search_first_block:
  "fence_free before \<Longrightarrow> fence_free body \<Longrightarrow>
     search_from fenced_block i (before @ fence @ body @ fence @ after) =
       Some \<lparr>index = i + length before, matched = fence @ body @ fence,
         groups = Map.empty, rest = after\<rparr>"
proof (induction before arbitrary: i)
  case Nil
  from run_to_closing_fence [OF Nil(2), of after Map.empty] obtain ys
    where "run (Seq (LazyStar AnyChar) (Seq (lit fence) Empty)) (body @ fence @ after, Map.empty) =
      (after, Map.empty) # ys" ..
  then have "run fenced_block (fence @ body @ fence @ after, Map.empty) = (after, Map.empty) # ys"
    by (simp add: run_fenced_block)
  then show ?case
    by (subst search_from.simps) simp
next
  case (Cons c before)
  from fence_free_Cons [OF Cons.prems(1), of "body @ fence @ after"]
  have free: "fence_free before"
    and nofence: "\<not> prefix fence (c # before @ fence @ body @ fence @ after)"
    by simp_all
  from nofence have "run fenced_block (c # before @ fence @ body @ fence @ after, Map.empty) = []"
    by (simp add: run_fenced_block)
  then show ?case
    using Cons.IH [OF free Cons.prems(2), of "Suc i"]
    by (subst search_from.simps) simp
qed

lemma fence_not_Nil [simp]: "fence \<noteq> []"
  by (simp add: fence_def)

lemma run_Opt: "run (Opt r) x = run r x @ [x]"
  by (simp add: Opt_def run.simps(1,9))

lemma run_Chr_Cons: "run (Chr a) (c # s, cp) = (if c = a then [(s, cp)] else [])"
  by (simp add: run.simps(2))

lemma run_Chr_Nil: "run (Chr a) ([], cp) = []"
  by (simp add: run.simps(2))

lemma remove_all_Nil: "run r ([], Map.empty) = [] \<Longrightarrow> remove_all r [] = []"
  by (subst remove_all.simps) simp

lemma remove_all_skip:
  "run r (c # t, Map.empty) = [] \<Longrightarrow> remove_all r (c # t) = c # remove_all r t"
  by (subst remove_all.simps) simp

lemma remove_all_match:
  "run r (s, Map.empty) = (s', cp) # ys \<Longrightarrow> length s' < length s \<Longrightarrow>
     remove_all r s = remove_all r s'"
  by (subst remove_all.simps) simp

text \<open>The two alternatives of \<open>fence_markers\<close>.\<close>

lemma run_fence_markers:
  "run fence_markers (s, cp) =
     (if prefix fence s
      then run (Seq (Star WordChar) (Seq (Opt (Chr 10)) Empty)) (drop (length fence) s, cp)
      else []) @
     (case s of
        [] \<Rightarrow> []
      | c # t \<Rightarrow> if c = 10 \<and> prefix fence t then [(drop (length fence) t, cp)] else []) @
     (if prefix fence s then [(drop (length fence) s, cp)] else [])"
  by (cases s)
     (simp_all add: fence_markers_def run.simps(9) run_lit_Seq run_Seq_Empty run_lit
        run.simps(8) [of "Opt (Chr 10)"] run_Opt run_Chr_Cons run_Chr_Nil)

lemma no_fence_before_newline:
  "\<not> includes_js x fence \<Longrightarrow> \<not> prefix fence (x @ 10 # r)"
  by (cases x; cases "tl x"; cases "tl (tl x)") (auto simp: fence_def)

lemma remove_closing_fence: "remove_all fence_markers (10 # fence) = []"
proof -
  have "run fence_markers (10 # fence, Map.empty) = [([], Map.empty)]"
    by (simp add: run_fence_markers) (simp add: fence_def)
  then have "remove_all fence_markers (10 # fence) = remove_all fence_markers []"
    by (rule remove_all_match) simp
  also have "\<dots> = []"
    by (rule remove_all_Nil) (simp add: run_fence_markers)
  finally show ?thesis .
qed

lemma remove_all_code:
  "\<not> includes_js code fence \<Longrightarrow> remove_all fence_markers (code @ 10 # fence) = code"
proof (induction code)
  case Nil
  then show ?case
    by (simp add: remove_closing_fence)
next
  case (Cons c code)
  then have rest: "\<not> includes_js code fence"
    by simp
  have 1: "\<not> prefix fence (c # code @ 10 # fence)"
    using no_fence_before_newline [OF Cons.prems, of fence] by simp
  have 2: "\<not> (c = 10 \<and> prefix fence (code @ 10 # fence))"
    using no_fence_before_newline [OF rest, of fence] by simp
  have "run fence_markers (c # code @ 10 # fence, Map.empty) = []"
    using 1 2 by (simp add: run_fence_markers)
  then have "remove_all fence_markers (c # code @ 10 # fence) =
      c # remove_all fence_markers (code @ 10 # fence)"
    by (rule remove_all_skip)
  with Cons.IH [OF rest] show ?case
    by simp
qed

lemma run_star_word_Cons:
  "is_word w \<Longrightarrow>
     run (Star WordChar) (w # s, cp) = run (Star WordChar) (s, cp) @ [(w # s, cp)]"
  by (subst run.simps(10)) (simp add: run.simps(6))

lemma run_star_word_newline:
  "run (Star WordChar) (10 # s, cp) = [(10 # s, cp)]"
  by (subst run.simps(10)) (simp add: run.simps(6) is_word_def is_digit_def)

lemma run_language_tag:
  "list_all is_word tag \<Longrightarrow>
     \<exists>ys. run (Seq (Star WordChar) q) (tag @ 10 # s, cp) = run q (10 # s, cp) @ ys"
proof (induction tag)
  case Nil
  then show ?case
    by (simp add: run.simps(8) run_star_word_newline)
next
  case (Cons w tag)
  then obtain ys where
    "run (Seq (Star WordChar) q) (tag @ 10 # s, cp) = run q (10 # s, cp) @ ys"
    by auto
  with Cons.prems show ?case
    by (simp add: run.simps(8) run_star_word_Cons)
qed

lemma run_opening_fence:
  assumes "list_all is_word tag"
  shows "\<exists>ys. run fence_markers (fence @ tag @ 10 # s, cp) = (s, cp) # ys"
proof -
  from run_language_tag [OF assms, of "Seq (Opt (Chr 10)) Empty" s cp] obtain ys where
    "run (Seq (Star WordChar) (Seq (Opt (Chr 10)) Empty)) (tag @ 10 # s, cp) =
       run (Seq (Opt (Chr 10)) Empty) (10 # s, cp) @ ys" ..
  then have "run (Seq (Star WordChar) (Seq (Opt (Chr 10)) Empty)) (tag @ 10 # s, cp) =
      (s, cp) # (10 # s, cp) # ys"
    by (simp add: run_Seq_Empty run_Opt run_Chr_Cons)
  then show ?thesis
    by (simp add: run_fence_markers)
qed

lemma remove_fence_markers:
  assumes "list_all is_word tag" "\<not> includes_js code fence"
  shows "remove_all fence_markers (fence @ tag @ [10] @ code @ [10] @ fence) = code"
proof -
  from run_opening_fence [OF assms(1), of "code @ 10 # fence" Map.empty] obtain ys where
    "run fence_markers (fence @ tag @ 10 # code @ 10 # fence, Map.empty) =
       (code @ 10 # fence, Map.empty) # ys" ..
  then have "remove_all fence_markers (fence @ tag @ 10 # code @ 10 # fence) =
      remove_all fence_markers (code @ 10 # fence)"
    by (rule remove_all_match) simp
  with remove_all_code [OF assms(2)] show ?thesis
    by simp
qed

text \<open>A block of that form has no fence inside.\<close>

lemma no_fence_code_newline:
  "\<not> includes_js code fence \<Longrightarrow> \<not> includes_js (code @ [10, 96, 96]) fence"
proof (induction code)
  case Nil
  then show ?case
    by (simp add: fence_def)
next
  case (Cons c code)
  from no_fence_before_newline [OF Cons.prems, of "[96, 96]"] Cons show ?case
    by simp
qed

lemma no_fence_tag:
  "list_all is_word tag \<Longrightarrow> \<not> includes_js z fence \<Longrightarrow>
     \<not> includes_js (tag @ 10 # z) fence"
proof (induction tag)
  case Nil
  then show ?case
    by (simp add: fence_def)
next
  case (Cons w tag)
  then have "w \<noteq> 96"
    by (auto simp: is_word_def is_digit_def)
  with Cons show ?case
    by (simp add: fence_def)
qed

lemma block_fence_free:
  assumes "list_all is_word tag" "\<not> includes_js code fence"
  shows "fence_free (tag @ [10] @ code @ [10])"
  using no_fence_tag [OF assms(1) no_fence_code_newline [OF assms(2)]]
  by (simp add: fence_free_def)


lemma includes_js_self: "includes_js (n @ r) n"
proof (cases "n @ r")
  case Nil
  then show ?thesis by simp
next
  case (Cons a list)
  have "prefix n (n @ r)"
    by simp
  with Cons show ?thesis
    by simp
qed

lemma includes_js_append: "includes_js (p @ n @ r) n"
proof (induction p)
  case Nil
  show ?case by (simp add: includes_js_self)
next
  case (Cons c p)
  then show ?case by simp
qed

lemma run_lazy_any_Nil: "run (LazyStar AnyChar) ([], cp) = [([], cp)]"
  by (subst run.simps(11)) (simp add: run.simps(7))

lemma run_closing_fence_found:
  "run (Seq (LazyStar AnyChar) (Seq (lit fence) Empty)) (t, cp) \<noteq> [] \<Longrightarrow>
     \<exists>b q. t = b @ fence @ q"
proof (induction t)
  case Nil
  then show ?case
    by (simp add: run.simps(8) run_lazy_any_Nil run_Seq_Empty run_lit)
next
  case (Cons c t)
  show ?case
  proof (cases "prefix fence (c # t)")
    case True
    then obtain q where "c # t = fence @ q"
      by (auto simp: prefix_def)
    then have "c # t = [] @ fence @ q"
      by simp
    then show ?thesis
      by blast
  next
    case False
    with Cons.prems have "run (Seq (LazyStar AnyChar) (Seq (lit fence) Empty)) (t, cp) \<noteq> []"
      by (simp add: run_lazy_any_Seq_Cons run_Seq_Empty run_lit)
    from Cons.IH [OF this] obtain b q where "t = b @ fence @ q"
      by blast
    then have "c # t = (c # b) @ fence @ q"
      by simp
    then show ?thesis
      by blast
  qed
qed

lemma search_block_found:
  "search_from fenced_block i s = Some m \<Longrightarrow> \<exists>p b q. s = p @ fence @ b @ fence @ q"
proof (induction s arbitrary: i)
  case Nil
  then show ?case
    by (simp add: search_from.simps run_fenced_block)
next
  case (Cons c s)
  show ?case
  proof (cases "run fenced_block (c # s, Map.empty) = []")
    case True
    with Cons.prems have "search_from fenced_block (Suc i) s = Some m"
      by (simp add: search_from.simps [of _ _ "c # s"])
    from Cons.IH [OF this] obtain p b q where "s = p @ fence @ b @ fence @ q"
      by blast
    then have "c # s = (c # p) @ fence @ b @ fence @ q"
      by simp
    then show ?thesis
      by blast
  next
    case False
    then have pre: "prefix fence (c # s)"
      and "run (Seq (LazyStar AnyChar) (Seq (lit fence) Empty))
        (drop (length fence) (c # s), Map.empty) \<noteq> []"
      by (auto simp: run_fenced_block split: if_splits)
    from run_closing_fence_found [OF this(2)] obtain b q
      where "drop (length fence) (c # s) = b @ fence @ q"
      by blast
    moreover from pre have "c # s = fence @ drop (length fence) (c # s)"
      by (auto simp: prefix_def)
    ultimately have "c # s = [] @ fence @ b @ fence @ q"
      by simp
    then show ?thesis
      by blast
  qed
qed


lemma block_has_six_backticks:
  "s = p @ fence @ b @ fence @ q \<Longrightarrow> 6 \<le> length (filter (\<lambda>c. c = 96) s)"
  by (simp add: fence_def)

section \<open>Properties of the suggestion service\<close>

lemma fence_free_Nil: "fence_free []"
  by (simp add: fence_free_def fence_def)

text \<open>A text with a fence has a first one.\<close>

lemma first_fence:
  "includes_js reply fence \<Longrightarrow>
     \<exists>before behind. reply = before @ fence @ behind \<and> fence_free before"
proof (induction reply)
  case Nil
  then show ?case
    by simp
next
  case (Cons c reply)
  show ?case
  proof (cases "prefix fence (c # reply)")
    case True
    then obtain behind where "c # reply = [] @ fence @ behind"
      by (auto simp: prefix_def)
    with fence_free_Nil show ?thesis
      by blast
  next
    case False
    with Cons.prems have "includes_js reply fence"
      by simp
    from Cons.IH [OF this] obtain before behind
      where shape: "reply = before @ fence @ behind" and free: "fence_free before"
      by blast
    have "\<not> prefix fence (c # before @ [96, 96])"
    proof
      assume "prefix fence (c # before @ [96, 96])"
      moreover have "prefix (c # before @ [96, 96]) (c # reply)"
        by (simp add: shape fence_def)
      ultimately have "prefix fence (c # reply)"
        by (rule prefix_order.trans)
      with False show False ..
    qed
    with free have "fence_free (c # before)"
      by (simp add: fence_free_def)
    moreover have "c # reply = (c # before) @ fence @ behind"
      by (simp add: shape)
    ultimately show ?thesis
      by blast
  qed
qed

lemma extractCodeFix_long: "extractCodeFix reply = Some c \<Longrightarrow> 10 < length c"
  by (auto simp: extractCodeFix_def Let_def split: option.splits if_splits)

lemma extractSuggestion_no_fence:
  "\<not> includes_js reply fence \<Longrightarrow> extractSuggestion reply = trim (take 300 reply)"
  using split_from_no_fence [of reply "[]"]
  by (simp add: extractSuggestion_def split_def substring0_def fence_def)

lemma extractSuggestion_before_fence:
  "fence_free before \<Longrightarrow>
     extractSuggestion (before @ fence @ after) = trim (take 300 before)"
  using split_from_first_fence [of before "[]" after]
  by (simp add: extractSuggestion_def split_def substring0_def) (simp add: fence_def)

lemma extractCodeFix_no_fence:
  "\<not> includes_js reply fence \<Longrightarrow> extractCodeFix reply = None"
  by (simp add: extractCodeFix_def match_def search_no_fence)

lemma extractCodeFix_first_block:
  "fence_free before \<Longrightarrow> fence_free body \<Longrightarrow>
     extractCodeFix (before @ fence @ body @ fence @ after) =
       (let cleaned = trim (remove_all fence_markers (fence @ body @ fence))
        in if length cleaned > 10 then Some cleaned else None)"
  by (simp add: extractCodeFix_def match_def search_first_block)

lemma extractCodeFix_tagged_block:
  assumes "fence_free before" "list_all is_word tag" "\<not> includes_js code fence"
  shows "extractCodeFix (before @ fence @ tag @ [10] @ code @ [10] @ fence @ after) =
    (if length (trim code) > 10 then Some (trim code) else None)"
proof -
  have "extractCodeFix (before @ fence @ (tag @ [10] @ code @ [10]) @ fence @ after) =
      (let cleaned =
         trim (remove_all fence_markers (fence @ (tag @ [10] @ code @ [10]) @ fence))
       in if length cleaned > 10 then Some cleaned else None)"
    using assms(1) block_fence_free [OF assms(2,3)] by (rule extractCodeFix_first_block)
  then show ?thesis
    using remove_fence_markers [OF assms(2,3)] by (simp add: Let_def)
qed

lemma extractCodeFix_no_block:
  "\<not> (\<exists>p b q. reply = p @ fence @ b @ fence @ q) \<Longrightarrow> extractCodeFix reply = None"
proof -
  assume no: "\<not> (\<exists>p b q. reply = p @ fence @ b @ fence @ q)"
  have "match reply fenced_block = None"
  proof (cases "match reply fenced_block")
    case (Some m)
    with search_block_found [of 0 reply m] no show ?thesis
      by (simp add: match_def)
  qed simp
  then show ?thesis
    by (simp add: extractCodeFix_def)
qed

lemma getSuggestions_eq:
  "getSuggestions env prompt =
     (if str ''gemini'' \<in> set (enabledServices env)
      then to_list (getGeminiSuggestion env prompt) else []) @
     (if str ''openai'' \<in> set (enabledServices env)
      then to_list (getOpenAISuggestion env prompt) else []) @
     (if str ''claude'' \<in> set (enabledServices env)
      then to_list (getClaudeSuggestion env prompt) else [])"
  by (cases "getGeminiSuggestion env prompt"; cases "getOpenAISuggestion env prompt";
      cases "getClaudeSuggestion env prompt")
     (simp_all add: getSuggestions_def)

lemma backend_suggestion_eq:
  "backend_suggestion env secret url service_name conf prompt =
     (case secrets_get env secret of
        None \<Rightarrow> None
      | Some k \<Rightarrow>
          if k = [] then None
          else
            (case post env url k prompt of
               Throws \<Rightarrow> None
             | Returns None \<Rightarrow> None
             | Returns (Some t) \<Rightarrow>
                 if t = [] then None
                 else Some \<lparr>service = service_name, suggestion = extractSuggestion t,
                   fix' = extractCodeFix t, confidence' = conf\<rparr>))"
  by (simp add: backend_suggestion_def Let_def split: option.splits io.splits)

lemma getGeminiSuggestion_eq:
  "getGeminiSuggestion env prompt =
     (case secrets_get env (str ''geminiApiKey'') of
        None \<Rightarrow> None
      | Some k \<Rightarrow>
          if k = [] then None
          else
            (case post env gemini_url k prompt of
               Throws \<Rightarrow> None
             | Returns None \<Rightarrow> None
             | Returns (Some t) \<Rightarrow>
                 if t = [] then None
                 else Some \<lparr>service = str ''Gemini'', suggestion = extractSuggestion t,
                   fix' = extractCodeFix t, confidence' = 0.8\<rparr>))"
  unfolding getGeminiSuggestion_def by (rule backend_suggestion_eq)

lemma getOpenAISuggestion_eq:
  "getOpenAISuggestion env prompt =
     (case secrets_get env (str ''openaiApiKey'') of
        None \<Rightarrow> None
      | Some k \<Rightarrow>
          if k = [] then None
          else
            (case post env openai_url k prompt of
               Throws \<Rightarrow> None
             | Returns None \<Rightarrow> None
             | Returns (Some t) \<Rightarrow>
                 if t = [] then None
                 else Some \<lparr>service = str ''ChatGPT'', suggestion = extractSuggestion t,
                   fix' = extractCodeFix t, confidence' = 0.85\<rparr>))"
  unfolding getOpenAISuggestion_def by (rule backend_suggestion_eq)

lemma getClaudeSuggestion_eq:
  "getClaudeSuggestion env prompt =
     (case secrets_get env (str ''claudeApiKey'') of
        None \<Rightarrow> None
      | Some k \<Rightarrow>
          if k = [] then None
          else
            (case post env claude_url k prompt of
               Throws \<Rightarrow> None
             | Returns None \<Rightarrow> None
             | Returns (Some t) \<Rightarrow>
                 if t = [] then None
                 else Some \<lparr>service = str ''Claude'', suggestion = extractSuggestion t,
                   fix' = extractCodeFix t, confidence' = 0.9\<rparr>))"
  unfolding getClaudeSuggestion_def by (rule backend_suggestion_eq)

text \<open>
  A backend that is enabled, has a key and gets a reply with a text has its suggestion in
  the list, whatever the other two backends do.
\<close>

lemma gemini_suggestion_returned:
  assumes "str ''gemini'' \<in> set (enabledServices env)"
    and "secrets_get env (str ''geminiApiKey'') = Some k" "k \<noteq> []"
    and "post env gemini_url k prompt = Returns (Some t)" "t \<noteq> []"
  shows "\<lparr>service = str ''Gemini'', suggestion = extractSuggestion t,
      fix' = extractCodeFix t, confidence' = 0.8\<rparr> \<in> set (getSuggestions env prompt)"
proof -
  have "getGeminiSuggestion env prompt =
      Some \<lparr>service = str ''Gemini'', suggestion = extractSuggestion t,
        fix' = extractCodeFix t, confidence' = 0.8\<rparr>"
    unfolding getGeminiSuggestion_eq using assms(2-5) by simp
  with assms(1) show ?thesis
    by (simp add: getSuggestions_eq)
qed

lemma openai_suggestion_returned:
  assumes "str ''openai'' \<in> set (enabledServices env)"
    and "secrets_get env (str ''openaiApiKey'') = Some k" "k \<noteq> []"
    and "post env openai_url k prompt = Returns (Some t)" "t \<noteq> []"
  shows "\<lparr>service = str ''ChatGPT'', suggestion = extractSuggestion t,
      fix' = extractCodeFix t, confidence' = 0.85\<rparr> \<in> set (getSuggestions env prompt)"
proof -
  have "getOpenAISuggestion env prompt =
      Some \<lparr>service = str ''ChatGPT'', suggestion = extractSuggestion t,
        fix' = extractCodeFix t, confidence' = 0.85\<rparr>"
    unfolding getOpenAISuggestion_eq using assms(2-5) by simp
  with assms(1) show ?thesis
    by (simp add: getSuggestions_eq)
qed

lemma claude_suggestion_returned:
  assumes "str ''claude'' \<in> set (enabledServices env)"
    and "secrets_get env (str ''claudeApiKey'') = Some k" "k \<noteq> []"
    and "post env claude_url k prompt = Returns (Some t)" "t \<noteq> []"
  shows "\<lparr>service = str ''Claude'', suggestion = extractSuggestion t,
      fix' = extractCodeFix t, confidence' = 0.9\<rparr> \<in> set (getSuggestions env prompt)"
proof -
  have "getClaudeSuggestion env prompt =
      Some \<lparr>service = str ''Claude'', suggestion = extractSuggestion t,
        fix' = extractCodeFix t, confidence' = 0.9\<rparr>"
    unfolding getClaudeSuggestion_eq using assms(2-5) by simp
  with assms(1) show ?thesis
    by (simp add: getSuggestions_eq)
qed

lemma urls_differ:
  "gemini_url \<noteq> openai_url" "gemini_url \<noteq> claude_url" "openai_url \<noteq> claude_url"
  "openai_url \<noteq> gemini_url" "claude_url \<noteq> gemini_url" "claude_url \<noteq> openai_url"
  by (simp_all add: gemini_url_def openai_url_def claude_url_def)

lemma to_list_Some_mem: "r = Some x \<Longrightarrow> x \<in> set (to_list r)"
  by simp

lemmas backend_eval =
  getGeminiSuggestion_def getOpenAISuggestion_def getClaudeSuggestion_def
  backend_suggestion_eq timeout_environment_def gemini_url_def openai_url_def
  claude_url_def

lemma timeout_gemini: "getGeminiSuggestion timeout_environment p = None"
  by (simp add: backend_eval)

lemma timeout_openai:
  "getOpenAISuggestion timeout_environment p =
     Some \<lparr>service = str ''ChatGPT'', suggestion = extractSuggestion (str ''Use await.''),
       fix' = extractCodeFix (str ''Use await.''), confidence' = 0.85\<rparr>"
  by (simp add: backend_eval)

lemma timeout_claude:
  "getClaudeSuggestion timeout_environment p =
     Some \<lparr>service = str ''Claude'',
       suggestion = extractSuggestion (str ''Check the import path.''),
       fix' = extractCodeFix (str ''Check the import path.''), confidence' = 0.9\<rparr>"
  by (simp add: backend_eval)

lemma suggestion_use_await: "extractSuggestion (str ''Use await.'') = str ''Use await.''"
proof -
  have "\<not> includes_js (str ''Use await.'') fence"
    by (simp add: fence_def str_def)
  then have "extractSuggestion (str ''Use await.'') = trim (take 300 (str ''Use await.''))"
    by (rule extractSuggestion_no_fence)
  then show ?thesis
    by (simp add: trim_def is_whitespace_def str_def)
qed

lemma suggestion_import_path:
  "extractSuggestion (str ''Check the import path.'') = str ''Check the import path.''"
proof -
  have "\<not> includes_js (str ''Check the import path.'') fence"
    by (simp add: fence_def str_def)
  then have "extractSuggestion (str ''Check the import path.'') =
      trim (take 300 (str ''Check the import path.''))"
    by (rule extractSuggestion_no_fence)
  then show ?thesis
    by (simp add: trim_def is_whitespace_def str_def)
qed

lemma no_fix_use_await: "extractCodeFix (str ''Use await.'') = None"
  by (rule extractCodeFix_no_fence) (simp add: fence_def str_def)

lemma no_fix_import_path: "extractCodeFix (str ''Check the import path.'') = None"
  by (rule extractCodeFix_no_fence) (simp add: fence_def str_def)

section \<open>The claims about the suggestion service\<close>

text \<open>
  C6. The suggestion batch is isolated per backend. Each of the three backends gives
  \<open>null\<close>, never an error, when its credential is missing, when its request throws (a
  timeout, a transport failure) or when its reply holds no text, and gives its
  suggestion otherwise; what it gives depends on its own key and its own request only.
  The list returned holds the suggestions of the enabled backends that gave one, in the
  order Gemini, ChatGPT, Claude: a backend that is enabled, has a key and gets a reply
  has its suggestion in the list whatever the other backends did. With the three
  backends enabled the list is made of those of the three results that are not \<open>null\<close>:
  when exactly one backend fails, the suggestions of the other two.
\<close>

theorem getSuggestions_isolated:
  "getSuggestions env prompt =
     (if str ''gemini'' \<in> set (enabledServices env)
      then to_list (getGeminiSuggestion env prompt) else []) @
     (if str ''openai'' \<in> set (enabledServices env)
      then to_list (getOpenAISuggestion env prompt) else []) @
     (if str ''claude'' \<in> set (enabledServices env)
      then to_list (getClaudeSuggestion env prompt) else []) \<and>
   getGeminiSuggestion env prompt =
     (case secrets_get env (str ''geminiApiKey'') of
        None \<Rightarrow> None
      | Some k \<Rightarrow>
          if k = [] then None
          else
            (case post env gemini_url k prompt of
               Throws \<Rightarrow> None
             | Returns None \<Rightarrow> None
             | Returns (Some t) \<Rightarrow>
                 if t = [] then None
                 else Some \<lparr>service = str ''Gemini'', suggestion = extractSuggestion t,
                   fix' = extractCodeFix t, confidence' = 0.8\<rparr>)) \<and>
   getOpenAISuggestion env prompt =
     (case secrets_get env (str ''openaiApiKey'') of
        None \<Rightarrow> None
      | Some k \<Rightarrow>
          if k = [] then None
          else
            (case post env openai_url k prompt of
               Throws \<Rightarrow> None
             | Returns None \<Rightarrow> None
             | Returns (Some t) \<Rightarrow>
                 if t = [] then None
                 else Some \<lparr>service = str ''ChatGPT'', suggestion = extractSuggestion t,
                   fix' = extractCodeFix t, confidence' = 0.85\<rparr>)) \<and>
   getClaudeSuggestion env prompt =
     (case secrets_get env (str ''claudeApiKey'') of
        None \<Rightarrow> None
      | Some k \<Rightarrow>
          if k = [] then None
          else
            (case post env claude_url k prompt of
               Throws \<Rightarrow> None
             | Returns None \<Rightarrow> None
             | Returns (Some t) \<Rightarrow>
                 if t = [] then None
                 else Some \<lparr>service = str ''Claude'', suggestion = extractSuggestion t,
                   fix' = extractCodeFix t, confidence' = 0.9\<rparr>)) \<and>
   (str ''gemini'' \<in> set (enabledServices env) \<and>
    secrets_get env (str ''geminiApiKey'') = Some gemini_key \<and> gemini_key \<noteq> [] \<and>
    post env gemini_url gemini_key prompt = Returns (Some gemini_text) \<and>
    gemini_text \<noteq> [] \<longrightarrow>
      \<lparr>service = str ''Gemini'', suggestion = extractSuggestion gemini_text,
        fix' = extractCodeFix gemini_text, confidence' = 0.8\<rparr>
        \<in> set (getSuggestions env prompt)) \<and>
   (str ''openai'' \<in> set (enabledServices env) \<and>
    secrets_get env (str ''openaiApiKey'') = Some openai_key \<and> openai_key \<noteq> [] \<and>
    post env openai_url openai_key prompt = Returns (Some openai_text) \<and>
    openai_text \<noteq> [] \<longrightarrow>
      \<lparr>service = str ''ChatGPT'', suggestion = extractSuggestion openai_text,
        fix' = extractCodeFix openai_text, confidence' = 0.85\<rparr>
        \<in> set (getSuggestions env prompt)) \<and>
   (str ''claude'' \<in> set (enabledServices env) \<and>
    secrets_get env (str ''claudeApiKey'') = Some claude_key \<and> claude_key \<noteq> [] \<and>
    post env claude_url claude_key prompt = Returns (Some claude_text) \<and>
    claude_text \<noteq> [] \<longrightarrow>
      \<lparr>service = str ''Claude'', suggestion = extractSuggestion claude_text,
        fix' = extractCodeFix claude_text, confidence' = 0.9\<rparr>
        \<in> set (getSuggestions env prompt)) \<and>
   (str ''gemini'' \<in> set (enabledServices env) \<and>
    str ''openai'' \<in> set (enabledServices env) \<and>
    str ''claude'' \<in> set (enabledServices env) \<longrightarrow>
      getSuggestions env prompt =
        to_list (getGeminiSuggestion env prompt) @
        to_list (getOpenAISuggestion env prompt) @
        to_list (getClaudeSuggestion env prompt))"
proof -
  have all: "getSuggestions env prompt =
      to_list (getGeminiSuggestion env prompt) @
      to_list (getOpenAISuggestion env prompt) @
      to_list (getClaudeSuggestion env prompt)"
    if "str ''gemini'' \<in> set (enabledServices env) \<and>
      str ''openai'' \<in> set (enabledServices env) \<and>
      str ''claude'' \<in> set (enabledServices env)"
    using that by (simp add: getSuggestions_eq)
  show ?thesis
    using getSuggestions_eq [of env prompt] getGeminiSuggestion_eq [of env prompt]
      getOpenAISuggestion_eq [of env prompt] getClaudeSuggestion_eq [of env prompt]
      gemini_suggestion_returned [of env gemini_key prompt gemini_text]
      openai_suggestion_returned [of env openai_key prompt openai_text]
      claude_suggestion_returned [of env claude_key prompt claude_text] all
    by blast
qed

theorem getSuggestions_isolated_witness:
  "post timeout_environment gemini_url (str ''key'') [] = Throws \<and>
   getSuggestions timeout_environment [] =
     [\<lparr>service = str ''ChatGPT'', suggestion = str ''Use await.'', fix' = None,
        confidence' = 0.85\<rparr>,
      \<lparr>service = str ''Claude'', suggestion = str ''Check the import path.'', fix' = None,
        confidence' = 0.9\<rparr>] \<and>
   post openai_timeout_environment openai_url (str ''key'') [] = Throws \<and>
   getSuggestions openai_timeout_environment [] =
     [\<lparr>service = str ''Gemini'', suggestion = str ''Use await.'', fix' = None,
        confidence' = 0.8\<rparr>,
      \<lparr>service = str ''Claude'', suggestion = str ''Check the import path.'', fix' = None,
        confidence' = 0.9\<rparr>] \<and>
   secrets_get no_key_environment (str ''claudeApiKey'') = None \<and>
   getSuggestions no_key_environment [] =
     [\<lparr>service = str ''Gemini'', suggestion = str ''Use await.'', fix' = None,
        confidence' = 0.8\<rparr>,
      \<lparr>service = str ''ChatGPT'', suggestion = str ''Check the import path.'',
        fix' = None, confidence' = 0.85\<rparr>] \<and>
   \<lparr>service = str ''Gemini'', suggestion = str ''Use await.'', fix' = None,
     confidence' = 0.8\<rparr> \<in> set (getSuggestions openai_timeout_environment []) \<and>
   \<lparr>service = str ''ChatGPT'', suggestion = str ''Use await.'', fix' = None,
     confidence' = 0.85\<rparr> \<in> set (getSuggestions timeout_environment []) \<and>
   \<lparr>service = str ''Claude'', suggestion = str ''Check the import path.'', fix' = None,
     confidence' = 0.9\<rparr> \<in> set (getSuggestions timeout_environment [])"
proof -
  note texts = suggestion_use_await suggestion_import_path no_fix_use_await
    no_fix_import_path
  note claim_a = getSuggestions_isolated
    [of timeout_environment "[]" _ _ "str ''key''" "str ''Use await.''"
      "str ''key''" "str ''Check the import path.''"]
  note claim_b = getSuggestions_isolated
    [of openai_timeout_environment "[]" "str ''key''" "str ''Use await.''"]
  note claim_c = getSuggestions_isolated [of no_key_environment "[]"]
  have a_hosts:
    "str ''gemini'' \<in> set (enabledServices timeout_environment) \<and>
     str ''openai'' \<in> set (enabledServices timeout_environment) \<and>
     str ''claude'' \<in> set (enabledServices timeout_environment)"
    "secrets_get timeout_environment (str ''geminiApiKey'') = Some (str ''key'')"
    "secrets_get timeout_environment (str ''openaiApiKey'') = Some (str ''key'')"
    "secrets_get timeout_environment (str ''claudeApiKey'') = Some (str ''key'')"
    "post timeout_environment gemini_url (str ''key'') [] = Throws"
    "post timeout_environment openai_url (str ''key'') [] =
       Returns (Some (str ''Use await.''))"
    "post timeout_environment claude_url (str ''key'') [] =
       Returns (Some (str ''Check the import path.''))"
    by (simp_all add: timeout_environment_def urls_differ)
  have b_hosts:
    "str ''gemini'' \<in> set (enabledServices openai_timeout_environment) \<and>
     str ''openai'' \<in> set (enabledServices openai_timeout_environment) \<and>
     str ''claude'' \<in> set (enabledServices openai_timeout_environment)"
    "secrets_get openai_timeout_environment (str ''geminiApiKey'') = Some (str ''key'')"
    "secrets_get openai_timeout_environment (str ''openaiApiKey'') = Some (str ''key'')"
    "secrets_get openai_timeout_environment (str ''claudeApiKey'') = Some (str ''key'')"
    "post openai_timeout_environment gemini_url (str ''key'') [] =
       Returns (Some (str ''Use await.''))"
    "post openai_timeout_environment openai_url (str ''key'') [] = Throws"
    "post openai_timeout_environment claude_url (str ''key'') [] =
       Returns (Some (str ''Check the import path.''))"
    by (simp_all add: openai_timeout_environment_def urls_differ)
  have c_hosts:
    "str ''gemini'' \<in> set (enabledServices no_key_environment) \<and>
     str ''openai'' \<in> set (enabledServices no_key_environment) \<and>
     str ''claude'' \<in> set (enabledServices no_key_environment)"
    "secrets_get no_key_environment (str ''geminiApiKey'') = Some (str ''key'')"
    "secrets_get no_key_environment (str ''openaiApiKey'') = Some (str ''key'')"
    "secrets_get no_key_environment (str ''claudeApiKey'') = None"
    "post no_key_environment gemini_url (str ''key'') [] =
       Returns (Some (str ''Use await.''))"
    "post no_key_environment openai_url (str ''key'') [] =
       Returns (Some (str ''Check the import path.''))"
    by (simp_all add: no_key_environment_def urls_differ)
  have a_results:
    "getGeminiSuggestion timeout_environment [] = None"
    "getOpenAISuggestion timeout_environment [] =
       Some \<lparr>service = str ''ChatGPT'', suggestion = str ''Use await.'', fix' = None,
         confidence' = 0.85\<rparr>"
    "getClaudeSuggestion timeout_environment [] =
       Some \<lparr>service = str ''Claude'', suggestion = str ''Check the import path.'',
         fix' = None, confidence' = 0.9\<rparr>"
    using claim_a by (simp_all add: a_hosts texts)
  have b_results:
    "getGeminiSuggestion openai_timeout_environment [] =
       Some \<lparr>service = str ''Gemini'', suggestion = str ''Use await.'', fix' = None,
         confidence' = 0.8\<rparr>"
    "getOpenAISuggestion openai_timeout_environment [] = None"
    "getClaudeSuggestion openai_timeout_environment [] =
       Some \<lparr>service = str ''Claude'', suggestion = str ''Check the import path.'',
         fix' = None, confidence' = 0.9\<rparr>"
    using claim_b by (simp_all add: b_hosts texts)
  have c_results:
    "getGeminiSuggestion no_key_environment [] =
       Some \<lparr>service = str ''Gemini'', suggestion = str ''Use await.'', fix' = None,
         confidence' = 0.8\<rparr>"
    "getOpenAISuggestion no_key_environment [] =
       Some \<lparr>service = str ''ChatGPT'', suggestion = str ''Check the import path.'',
         fix' = None, confidence' = 0.85\<rparr>"
    "getClaudeSuggestion no_key_environment [] = None"
    using claim_c by (simp_all add: c_hosts texts)
  have a_list: "getSuggestions timeout_environment [] =
      to_list (getGeminiSuggestion timeout_environment []) @
      to_list (getOpenAISuggestion timeout_environment []) @
      to_list (getClaudeSuggestion timeout_environment [])"
    using claim_a a_hosts(1) by blast
  have b_list: "getSuggestions openai_timeout_environment [] =
      to_list (getGeminiSuggestion openai_timeout_environment []) @
      to_list (getOpenAISuggestion openai_timeout_environment []) @
      to_list (getClaudeSuggestion openai_timeout_environment [])"
    using claim_b b_hosts(1) by blast
  have c_list: "getSuggestions no_key_environment [] =
      to_list (getGeminiSuggestion no_key_environment []) @
      to_list (getOpenAISuggestion no_key_environment []) @
      to_list (getClaudeSuggestion no_key_environment [])"
    using claim_c c_hosts(1) by blast
  have gemini_in: "\<lparr>service = str ''Gemini'', suggestion = extractSuggestion (str ''Use await.''),
      fix' = extractCodeFix (str ''Use await.''), confidence' = 0.8\<rparr>
      \<in> set (getSuggestions openai_timeout_environment [])"
    using claim_b b_hosts by simp
  have openai_in: "\<lparr>service = str ''ChatGPT'',
      suggestion = extractSuggestion (str ''Use await.''),
      fix' = extractCodeFix (str ''Use await.''), confidence' = 0.85\<rparr>
      \<in> set (getSuggestions timeout_environment [])"
    using claim_a a_hosts by simp
  have claude_in: "\<lparr>service = str ''Claude'',
      suggestion = extractSuggestion (str ''Check the import path.''),
      fix' = extractCodeFix (str ''Check the import path.''), confidence' = 0.9\<rparr>
      \<in> set (getSuggestions timeout_environment [])"
    using claim_a a_hosts by simp
  show ?thesis
    using a_hosts(5) b_hosts(6) c_hosts(4) gemini_in openai_in claude_in
    by (simp add: a_list b_list c_list a_results b_results c_results texts)
qed

text \<open>
  C7, as the code has it. For every reply, the suggestion is the text before the first
  fence (three backticks), or the whole text when there is no fence, cut to its first 300
  characters and then trimmed. A code fix is extracted only from a reply with a fenced
  block (a fence that is followed by another one), and a code fix that is extracted is
  longer than 10 characters. When the first fence of the reply is followed by a language
  tag of word characters (it may be empty), a line feed, code without a fence, a line
  feed and a fence, the code fix is that code, trimmed; it is kept when the trimmed code
  is longer than 10 characters and discarded when it has 10 characters or fewer. What is
  left of a fenced block of another form is not stated here.
\<close>

theorem extract_suggestion_and_fix:
  "(\<not> includes_js reply fence \<longrightarrow> extractSuggestion reply = trim (take 300 reply)) \<and>
   (includes_js reply fence \<longrightarrow>
      (\<exists>before' behind'. reply = before' @ fence @ behind' \<and> fence_free before')) \<and>
   (reply = before @ fence @ behind \<and> fence_free before \<longrightarrow>
      extractSuggestion reply = trim (take 300 before)) \<and>
   (\<not> (\<exists>p b q. reply = p @ fence @ b @ fence @ q) \<longrightarrow> extractCodeFix reply = None) \<and>
   (extractCodeFix reply = Some kept \<longrightarrow> 10 < length kept) \<and>
   (reply = before @ fence @ tag @ [10] @ code @ [10] @ fence @ after \<and>
    fence_free before \<and> list_all is_word tag \<and> \<not> includes_js code fence \<longrightarrow>
      extractCodeFix reply = (if length (trim code) > 10 then Some (trim code) else None))"
  using extractSuggestion_no_fence [of reply] first_fence [of reply]
    extractSuggestion_before_fence [of before behind]
    extractCodeFix_no_block [of reply] extractCodeFix_long [of reply kept]
    extractCodeFix_tagged_block [of before tag code after]
  by blast

theorem extract_suggestion_and_fix_witness:
  "\<not> includes_js reply_plain fence \<and>
   extractSuggestion reply_plain = str ''Use await.'' \<and>
   \<not> (\<exists>p b q. reply_open = p @ fence @ b @ fence @ q) \<and>
   includes_js reply_open fence \<and>
   (\<exists>before' behind'. reply_open = before' @ fence @ behind' \<and> fence_free before') \<and>
   reply_open = (str ''Try:'' @ [10]) @ fence @ (str ''js'' @ [10] @ str ''run()'') \<and>
   fence_free (str ''Try:'' @ [10]) \<and>
   extractSuggestion reply_open = str ''Try:'' \<and>
   extractCodeFix reply_open = None \<and>
   reply_with_fix =
     (str ''Add the missing operand.'' @ [10]) @ fence @ str ''js'' @ [10] @
     str ''const x = 1 + 22;'' @ [10] @ fence @ ([10] @ str ''Done.'') \<and>
   fence_free (str ''Add the missing operand.'' @ [10]) \<and>
   list_all is_word (str ''js'') \<and>
   \<not> includes_js (str ''const x = 1 + 22;'') fence \<and>
   extractSuggestion reply_with_fix = str ''Add the missing operand.'' \<and>
   extractCodeFix reply_with_fix = Some (str ''const x = 1 + 22;'') \<and>
   10 < length (str ''const x = 1 + 22;'') \<and>
   reply_ten =
     (str ''Fix:'' @ [10]) @ fence @ [] @ [10] @ str ''x = 1 + 22'' @ [10] @ fence @ [] \<and>
   fence_free (str ''Fix:'' @ [10]) \<and>
   \<not> includes_js (str ''x = 1 + 22'') fence \<and>
   \<not> 10 < length (trim (str ''x = 1 + 22'')) \<and>
   extractSuggestion reply_ten = str ''Fix:'' \<and>
   extractCodeFix reply_ten = None"
proof -
  let ?before = "str ''Add the missing operand.'' @ [10]"
  let ?code = "str ''const x = 1 + 22;''"
  let ?after = "[10] @ str ''Done.''"
  have plain: "\<not> includes_js reply_plain fence"
    by (simp add: reply_plain_def fence_def str_def)
  have "length (filter (\<lambda>c. c = 96) reply_open) = 3"
    by (simp add: reply_open_def fence_def str_def)
  then have open_block: "\<not> (\<exists>p b q. reply_open = p @ fence @ b @ fence @ q)"
    using block_has_six_backticks [of reply_open] by fastforce
  have open_shape:
    "reply_open = (str ''Try:'' @ [10]) @ fence @ (str ''js'' @ [10] @ str ''run()'')"
    by (simp add: reply_open_def)
  have open_fence: "includes_js reply_open fence"
    unfolding open_shape by (rule includes_js_append)
  have open_before: "fence_free (str ''Try:'' @ [10])"
    by (simp add: fence_free_def fence_def str_def)
  have shape: "reply_with_fix =
      ?before @ fence @ str ''js'' @ [10] @ ?code @ [10] @ fence @ ?after"
    by (simp add: reply_with_fix_def)
  have before: "fence_free ?before"
    by (simp add: fence_free_def fence_def str_def)
  have tag: "list_all is_word (str ''js'')"
    by (simp add: is_word_def is_digit_def str_def)
  have code: "\<not> includes_js ?code fence"
    by (simp add: fence_def str_def)
  have ten_shape: "reply_ten =
      (str ''Fix:'' @ [10]) @ fence @ [] @ [10] @ str ''x = 1 + 22'' @ [10] @ fence @ []"
    by (simp add: reply_ten_def)
  have ten_before: "fence_free (str ''Fix:'' @ [10])"
    by (simp add: fence_free_def fence_def str_def)
  have ten_code: "\<not> includes_js (str ''x = 1 + 22'') fence"
    by (simp add: fence_def str_def)
  note claim_plain = extract_suggestion_and_fix [of reply_plain]
  note claim_open = extract_suggestion_and_fix
    [of reply_open "str ''Try:'' @ [10]" "str ''js'' @ [10] @ str ''run()''"]
  note claim_fix = extract_suggestion_and_fix
    [of reply_with_fix ?before "str ''js'' @ [10] @ ?code @ [10] @ fence @ ?after"
      ?code "str ''js''" ?code ?after]
  note claim_ten = extract_suggestion_and_fix
    [of reply_ten "str ''Fix:'' @ [10]" "[] @ [10] @ str ''x = 1 + 22'' @ [10] @ fence @ []"
      _ "[]" "str ''x = 1 + 22''" "[]"]
  note plain_1 = claim_plain [THEN conjunct1]
  note open_2 = claim_open [THEN conjunct2, THEN conjunct1]
  note open_3 = claim_open [THEN conjunct2, THEN conjunct2, THEN conjunct1]
  note open_4 = claim_open [THEN conjunct2, THEN conjunct2, THEN conjunct2, THEN conjunct1]
  note fix_3 = claim_fix [THEN conjunct2, THEN conjunct2, THEN conjunct1]
  note fix_5 = claim_fix [THEN conjunct2, THEN conjunct2, THEN conjunct2, THEN conjunct2,
    THEN conjunct1]
  note fix_6 = claim_fix [THEN conjunct2, THEN conjunct2, THEN conjunct2, THEN conjunct2,
    THEN conjunct2]
  note ten_3 = claim_ten [THEN conjunct2, THEN conjunct2, THEN conjunct1]
  note ten_6 = claim_ten [THEN conjunct2, THEN conjunct2, THEN conjunct2, THEN conjunct2,
    THEN conjunct2]
  have 1: "extractSuggestion reply_plain = trim (take 300 reply_plain)"
    using plain_1 plain by (rule mp)
  have open_first:
    "\<exists>before' behind'. reply_open = before' @ fence @ behind' \<and> fence_free before'"
    using open_2 open_fence by (rule mp)
  have 2: "extractSuggestion reply_open = trim (take 300 (str ''Try:'' @ [10]))"
    using open_3 conjI [OF open_shape open_before] by (rule mp)
  have open_none: "extractCodeFix reply_open = None"
    using open_4 open_block by (rule mp)
  have 3: "extractSuggestion reply_with_fix = trim (take 300 ?before)"
    using fix_3 conjI [OF shape before] by (rule mp)
  have 4: "extractCodeFix reply_with_fix =
      (if length (trim ?code) > 10 then Some (trim ?code) else None)"
    using fix_6 conjI [OF shape conjI [OF before conjI [OF tag code]]] by (rule mp)
  have 5: "extractSuggestion reply_ten = trim (take 300 (str ''Fix:'' @ [10]))"
    using ten_3 conjI [OF ten_shape ten_before] by (rule mp)
  have empty_tag: "list_all is_word []"
    by simp
  have 6: "extractCodeFix reply_ten =
      (if length (trim (str ''x = 1 + 22'')) > 10 then Some (trim (str ''x = 1 + 22''))
       else None)"
    using ten_6 conjI [OF ten_shape conjI [OF ten_before conjI [OF empty_tag ten_code]]]
    by (rule mp)
  have trims: "trim (take 300 reply_plain) = str ''Use await.''"
      "trim (take 300 (str ''Try:'' @ [10])) = str ''Try:''"
      "trim (take 300 ?before) = str ''Add the missing operand.''"
      "trim ?code = ?code"
      "trim (take 300 (str ''Fix:'' @ [10])) = str ''Fix:''"
      "trim (str ''x = 1 + 22'') = str ''x = 1 + 22''"
    by (simp_all add: reply_plain_def trim_def is_whitespace_def str_def)
  have lengths: "length ?code = 17" "length (str ''x = 1 + 22'') = 10"
    by (simp_all add: str_def)
  have 7: "extractCodeFix reply_with_fix = Some ?code"
    using 4 by (simp add: trims lengths)
  have 8: "10 < length ?code"
    using fix_5 7 by (rule mp)
  have 9: "extractCodeFix reply_ten = None"
    using 6 by (simp add: trims lengths)
  have 10: "\<not> 10 < length (trim (str ''x = 1 + 22''))"
    by (simp add: trims lengths)
  have s1: "extractSuggestion reply_plain = str ''Use await.''"
    using 1 by (simp only: trims)
  have s2: "extractSuggestion reply_open = str ''Try:''"
    using 2 by (simp only: trims)
  have s3: "extractSuggestion reply_with_fix = str ''Add the missing operand.''"
    using 3 by (simp only: trims)
  have s5: "extractSuggestion reply_ten = str ''Fix:''"
    using 5 by (simp only: trims)
  show ?thesis
    by (intro conjI plain s1 open_block open_fence open_first open_shape open_before s2
      open_none shape before tag code s3 7 8 ten_shape ten_before ten_code 10 s5 9)
qed

text \<open>
  C7, as it is stated, fails: the first fenced block of \<open>reply_ten\<close>, with its fence
  markers taken out, is \<open>x = 1 + 22\<close>, which has ten characters and so is not under 10
  characters; yet no code fix is extracted.
\<close>

theorem extractCodeFix_ten_counterexample:
  "match reply_ten fenced_block =
     Some \<lparr>index = 5, matched = fence @ [10] @ str ''x = 1 + 22'' @ [10] @ fence,
       groups = Map.empty, rest = []\<rparr> \<and>
   trim (remove_all fence_markers (fence @ [10] @ str ''x = 1 + 22'' @ [10] @ fence)) =
     str ''x = 1 + 22'' \<and>
   \<not> length (str ''x = 1 + 22'') < 10 \<and>
   extractCodeFix reply_ten = None"
proof -
  have shape: "reply_ten = (str ''Fix:'' @ [10]) @ fence @ [10] @ str ''x = 1 + 22'' @ [10] @
      fence @ []"
    by (simp add: reply_ten_def)
  have before: "fence_free (str ''Fix:'' @ [10])"
    by (simp add: fence_free_def fence_def str_def)
  have code: "\<not> includes_js (str ''x = 1 + 22'') fence"
    by (simp add: fence_def str_def)
  have body: "fence_free ([] @ [10] @ str ''x = 1 + 22'' @ [10])"
    by (rule block_fence_free) (simp_all add: code)
  have found: "match reply_ten fenced_block =
      Some \<lparr>index = 5, matched = fence @ [10] @ str ''x = 1 + 22'' @ [10] @ fence,
        groups = Map.empty, rest = []\<rparr>"
    unfolding match_def shape
    using search_first_block [OF before body, of 0 "[]"] by (simp add: str_def)
  have cleaned: "remove_all fence_markers (fence @ [] @ [10] @ str ''x = 1 + 22'' @ [10] @
      fence) = str ''x = 1 + 22''"
    by (rule remove_fence_markers) (simp_all add: code)
  have trimmed: "trim (str ''x = 1 + 22'') = str ''x = 1 + 22''"
    by (simp add: trim_def is_whitespace_def str_def)
  have ten: "length (str ''x = 1 + 22'') = 10"
    by (simp add: str_def)
  have "extractCodeFix reply_ten = None"
    using found cleaned trimmed ten by (simp add: extractCodeFix_def)
  with found cleaned trimmed ten show ?thesis
    by simp
qed

end
